theory Spec2Isabelle
  imports Main "HOL-Library.Sublist"
begin

section \<open>Luthor: the lexer of Lex.h\<close>

text \<open>
  The class \<open>Lex::Lexer\<close> of Lex.h holds an ordered table of token definitions and scans a
  string with it. Iterators of the source are modelled by indices: an iterator into the
  script is its distance from \<open>std::begin(script)\<close>, so \<open>std::end(script)\<close> is
  \<open>length script\<close>; an iterator into \<open>m_expressions\<close> is the position of the definition
  in the table, so \<open>std::end(m_expressions)\<close> is \<open>length m_expressions\<close>. The string type
  is \<open>std::string\<close>, a list of 8-bit characters. The fields of \<open>Location\<close> are \<open>size_t\<close>
  in the source; they never exceed the length of the script plus one, so they are
  modelled by \<open>nat\<close>.
\<close>

subsection \<open>Data\<close>

record Location =
  line_number :: nat
  within_line :: nat
  global :: nat

text \<open>
  \<open>std::regex\<close> is the library's, not the repository's. A compiled expression is
  represented by what the engine finds with it: for a subject range, the lengths of the
  matches of the expression that begin at the first character of the range, in the
  engine's order of preference (for the ECMAScript engine, the order in which its
  backtracking reaches them). The search is given the range and nothing of the script
  outside it, so what it finds depends on the characters of the range only.
\<close>

type_synonym regex = "string \<Rightarrow> nat list"

record 'id TokenDef =
  Expr :: regex
  ID :: 'id

record TokenMatch =
  Token :: nat
  LexemeStart :: nat
  LexemeEnd :: nat

record 'id Lexer =
  m_expressions :: "'id TokenDef list"

text \<open>
  A call that may throw either returns a value or throws an exception; in both cases the
  state that the callee has changed through its references stays changed.
\<close>

datatype ('x, 's, 'a) outcome = Returns 'a | Throws 'x 's

text \<open>The error codes of \<open>std::regex_error\<close>.\<close>

datatype regex_error =
    error_collate | error_ctype | error_escape | error_backref | error_brack
  | error_paren | error_brace | error_badbrace | error_range | error_space
  | error_badrepeat | error_complexity | error_stack

subsection \<open>The matching engine\<close>

text \<open>
  \<open>std::regex_search(start, end, results, expr, match_continuous | match_not_null |
  format_no_copy | format_first_only)\<close> followed by \<open>results.str().size()\<close>: the subject
  is the range from \<open>start\<close> to \<open>end\<close>; \<open>match_continuous\<close> admits only matches that begin
  at \<open>start\<close>, \<open>match_not_null\<close> rejects the empty match, and a match lies inside the
  subject. The result is the length of the first match that remains, or \<open>None\<close> when the
  search returns false. The two format flags have no effect on a search.
\<close>

definition regex_search :: "regex \<Rightarrow> string \<Rightarrow> nat option" where
  "regex_search expr subject =
     find (\<lambda>n. 0 < n \<and> n \<le> length subject) (expr subject)"

definition subrange :: "string \<Rightarrow> nat \<Rightarrow> nat \<Rightarrow> string" where
  "subrange script start end = take (end - start) (drop start script)"

subsection \<open>Lexer::define and TokenDef\<close>

text \<open>\<open>define\<close> is a keyword of Isabelle, so the member function is named \<open>Lexer_define\<close>.\<close>

text \<open>
  The constructor of \<open>TokenDef\<close> compiles the text with the constructor of
  \<open>std::basic_regex\<close>, which throws \<open>std::regex_error\<close> on a text that is not a regular
  expression. The compiler is the library's and is a parameter here.
\<close>

definition TokenDef_ctor ::
  "(string \<Rightarrow> regex_error + regex) \<Rightarrow> 'id \<Rightarrow> string \<Rightarrow> regex_error + 'id TokenDef" where
  "TokenDef_ctor compile id' regex =
     (case compile regex of
        Inl e \<Rightarrow> Inl e
      | Inr expr \<Rightarrow> Inr \<lparr>Expr = expr, ID = id'\<rparr>)"

definition Lexer_define ::
  "(string \<Rightarrow> regex_error + regex) \<Rightarrow> 'id \<Rightarrow> string \<Rightarrow> 'id Lexer
     \<Rightarrow> (regex_error, 'id Lexer, 'id Lexer) outcome" where
  "Lexer_define compile id' definitionRegex this =
     (case TokenDef_ctor compile id' definitionRegex of
        Inl e \<Rightarrow> Throws e this
      | Inr d \<Rightarrow> Returns (this\<lparr>m_expressions := m_expressions this @ [d]\<rparr>))"

subsection \<open>Lexer::MatchRegex and Lexer::SearchRegex\<close>

text \<open>
  The loop of \<open>MatchRegex\<close> from the definition at position \<open>expr\<close> on; the first
  argument is the rest of the table from there. The result is the returned iterator and
  the value of the reference parameter \<open>end\<close> on return.
\<close>

fun MatchRegex_from ::
  "'id TokenDef list \<Rightarrow> nat \<Rightarrow> string \<Rightarrow> nat \<Rightarrow> nat \<Rightarrow> nat \<times> nat" where
  "MatchRegex_from [] expr script start end = (expr, end)"
| "MatchRegex_from (d # ds) expr script start end =
     (case regex_search (Expr d) (subrange script start end) of
        Some n \<Rightarrow> (expr, start + n)
      | None \<Rightarrow> MatchRegex_from ds (Suc expr) script start end)"

definition MatchRegex :: "'id Lexer \<Rightarrow> string \<Rightarrow> nat \<Rightarrow> nat \<Rightarrow> nat \<times> nat" where
  "MatchRegex this script start end = MatchRegex_from (m_expressions this) 0 script start end"

definition SearchRegex :: "'id Lexer \<Rightarrow> string \<Rightarrow> nat \<Rightarrow> nat \<Rightarrow> TokenMatch" where
  "SearchRegex this script start end =
     (let match = \<lparr>Token = length (m_expressions this), LexemeStart = start, LexemeEnd = end\<rparr>
      in if start \<ge> end then match
         else
           (let (token, end') = MatchRegex this script start (LexemeEnd match);
                match = match\<lparr>Token := token, LexemeEnd := end'\<rparr>
            in if Token match = length (m_expressions this)
               then match\<lparr>LexemeEnd := LexemeStart match\<rparr>
               else match))"

subsection \<open>Lexer::CountLineNums\<close>

definition newline :: char where
  "newline = CHR 0x0A"

text \<open>
  The result is the returned count and the value of the reference parameter
  \<open>lineLineBegin\<close> on return.
\<close>

function CountLineNums_loop :: "string \<Rightarrow> nat \<Rightarrow> nat \<Rightarrow> nat \<Rightarrow> nat \<Rightarrow> nat \<times> nat" where
  "CountLineNums_loop script a b lineLineBegin lineCount =
     (if a < b
      then (if script ! a = newline
            then CountLineNums_loop script (a + 1) b (a + 1) (lineCount + 1)
            else CountLineNums_loop script (a + 1) b lineLineBegin lineCount)
      else (lineCount, lineLineBegin))"
  by pat_completeness auto
termination
  by (relation "measure (\<lambda>(script, a, b, lineLineBegin, lineCount). b - a)") auto

declare CountLineNums_loop.simps [simp del]

definition CountLineNums :: "string \<Rightarrow> nat \<Rightarrow> nat \<Rightarrow> nat \<Rightarrow> nat \<times> nat" where
  "CountLineNums script a b lineLineBegin = CountLineNums_loop script a b lineLineBegin 0"

subsection \<open>Lexer::analyze\<close>

text \<open>
  The sinks are the caller's functors, passed by reference: a call changes the caller's
  state \<open>'s\<close> and returns, or throws an exception of the caller's type \<open>'x\<close>. The locals of
  \<open>analyze\<close> that live across iterations, with the state of the sinks:
\<close>

record 's scan =
  location :: Location
  cursor :: nat
  lastLineBegin :: nat
  sinks :: 's

text \<open>The body of the while loop.\<close>

definition analyze_body ::
  "'id Lexer \<Rightarrow> string
     \<Rightarrow> (Location \<Rightarrow> 'id \<Rightarrow> nat \<Rightarrow> nat \<Rightarrow> 's \<Rightarrow> ('x, 's, 's) outcome)
     \<Rightarrow> (Location \<Rightarrow> 's \<Rightarrow> ('x, 's, 's) outcome)
     \<Rightarrow> 's scan \<Rightarrow> ('x, 's, 's scan) outcome" where
  "analyze_body this script onMatch onError st =
     (let match = SearchRegex this script (cursor st) (length script);
          location = (location st)\<lparr>global := cursor st - 0,
                                   within_line := 1 + cursor st - lastLineBegin st\<rparr>
      in case (if Token match = length (m_expressions this)
               then onError location (sinks st)
               else onMatch location (ID (m_expressions this ! Token match))
                      (LexemeStart match) (LexemeEnd match) (sinks st)) of
           Throws x s \<Rightarrow> Throws x s
         | Returns s \<Rightarrow>
             (let (lineCount, lineLineBegin) =
                    CountLineNums script (cursor st) (LexemeEnd match) (lastLineBegin st)
              in Returns \<lparr>location = location\<lparr>line_number := line_number location + lineCount\<rparr>,
                          cursor = LexemeEnd match,
                          lastLineBegin = lineLineBegin,
                          sinks = s\<rparr>))"

text \<open>
  The while loop. It need not end, so it is a partial function: \<open>None\<close> is the loop that
  runs forever.
\<close>

partial_function (option) analyze_while ::
  "'id Lexer \<Rightarrow> string
     \<Rightarrow> (Location \<Rightarrow> 'id \<Rightarrow> nat \<Rightarrow> nat \<Rightarrow> 's \<Rightarrow> ('x, 's, 's) outcome)
     \<Rightarrow> (Location \<Rightarrow> 's \<Rightarrow> ('x, 's, 's) outcome)
     \<Rightarrow> 's scan \<Rightarrow> ('x, 's, 's) outcome option" where
  "analyze_while this script onMatch onError st =
     (if cursor st < length script
      then (case analyze_body this script onMatch onError st of
              Throws x s \<Rightarrow> Some (Throws x s)
            | Returns st' \<Rightarrow> analyze_while this script onMatch onError st')
      else Some (Returns (sinks st)))"

declare analyze_while.simps [code]

text \<open>
  \<open>analyze\<close> is a member function that is not \<open>const\<close>: it returns, or throws, with the
  lexer object as it has left it.
\<close>

definition analyze ::
  "'id Lexer \<Rightarrow> string
     \<Rightarrow> (Location \<Rightarrow> 'id \<Rightarrow> nat \<Rightarrow> nat \<Rightarrow> 's \<Rightarrow> ('x, 's, 's) outcome)
     \<Rightarrow> (Location \<Rightarrow> 's \<Rightarrow> ('x, 's, 's) outcome)
     \<Rightarrow> 's \<Rightarrow> (('x, 's, 's) outcome \<times> 'id Lexer) option" where
  "analyze this script onMatch onError s =
     map_option (\<lambda>r. (r, this))
       (analyze_while this script onMatch onError
          \<lparr>location = \<lparr>line_number = 1, within_line = 1, global = 0\<rparr>,
           cursor = 0, lastLineBegin = 0, sinks = s\<rparr>)"

text \<open>
  The first \<open>n\<close> iterations of the while loop, for the calls that do not end: the result
  is the state of the loop after them, or after the last iteration if the loop has ended
  before, or the exception that has ended the call.
\<close>

fun analyze_iterations ::
  "nat \<Rightarrow> 'id Lexer \<Rightarrow> string
     \<Rightarrow> (Location \<Rightarrow> 'id \<Rightarrow> nat \<Rightarrow> nat \<Rightarrow> 's \<Rightarrow> ('x, 's, 's) outcome)
     \<Rightarrow> (Location \<Rightarrow> 's \<Rightarrow> ('x, 's, 's) outcome)
     \<Rightarrow> 's scan \<Rightarrow> ('x, 's, 's scan) outcome" where
  "analyze_iterations 0 this script onMatch onError st = Returns st"
| "analyze_iterations (Suc n) this script onMatch onError st =
     (if cursor st < length script
      then (case analyze_body this script onMatch onError st of
              Throws x s \<Rightarrow> Throws x s
            | Returns st' \<Rightarrow> analyze_iterations n this script onMatch onError st')
      else Returns st)"

subsection \<open>Sinks\<close>

text \<open>
  The error sink of Example.cpp, \<open>ErrorHandler::operator()\<close>: it throws a
  \<open>SyntaxErrorException\<close> that holds the location, and has no state of its own.
\<close>

datatype SyntaxErrorException = SyntaxErrorException Location

definition ErrorHandler :: "Location \<Rightarrow> 's \<Rightarrow> (SyntaxErrorException, 's, 's) outcome" where
  "ErrorHandler loc s = Throws (SyntaxErrorException loc) s"

text \<open>
  What \<open>analyze\<close> delivers to its sinks is observed by a log: each sink is wrapped so that
  a call first behaves as the caller's sink does and is appended to the log with its
  arguments, whether the sink returns or throws. A match event has the location, the
  token identifier, and the start and the end of the lexeme; a no-match event has the
  location.
\<close>

datatype 'id event = match_event Location 'id nat nat | no_match_event Location

definition logged :: "'id event \<Rightarrow> 'id event list \<Rightarrow> ('x, 's, 's) outcome
     \<Rightarrow> ('x, 's \<times> 'id event list, 's \<times> 'id event list) outcome" where
  "logged e log r =
     (case r of
        Returns s \<Rightarrow> Returns (s, log @ [e])
      | Throws x s \<Rightarrow> Throws x (s, log @ [e]))"

definition logged_onMatch ::
  "(Location \<Rightarrow> 'id \<Rightarrow> nat \<Rightarrow> nat \<Rightarrow> 's \<Rightarrow> ('x, 's, 's) outcome)
     \<Rightarrow> Location \<Rightarrow> 'id \<Rightarrow> nat \<Rightarrow> nat \<Rightarrow> 's \<times> 'id event list
     \<Rightarrow> ('x, 's \<times> 'id event list, 's \<times> 'id event list) outcome" where
  "logged_onMatch onMatch loc id' lexemeBegin lexemeEnd sl =
     logged (match_event loc id' lexemeBegin lexemeEnd) (snd sl)
       (onMatch loc id' lexemeBegin lexemeEnd (fst sl))"

definition logged_onError ::
  "(Location \<Rightarrow> 's \<Rightarrow> ('x, 's, 's) outcome)
     \<Rightarrow> Location \<Rightarrow> 's \<times> 'id event list
     \<Rightarrow> ('x, 's \<times> 'id event list, 's \<times> 'id event list) outcome" where
  "logged_onError onError loc sl =
     logged (no_match_event loc) (snd sl) (onError loc (fst sl))"

text \<open>The state of the sinks when a call has ended, and the log in it.\<close>

fun final :: "('x, 's, 's) outcome \<Rightarrow> 's" where
  "final (Returns s) = s"
| "final (Throws x s) = s"

text \<open>The state of the sinks when one iteration of the loop has ended.\<close>

fun after_body :: "('x, 's, 's scan) outcome \<Rightarrow> 's" where
  "after_body (Returns st) = sinks st"
| "after_body (Throws x s) = s"

fun returned :: "('x, 's, 'a) outcome \<Rightarrow> bool" where
  "returned (Returns s) = True"
| "returned (Throws x s) = False"

text \<open>
  The sequences of events that a call of \<open>analyze\<close> delivers: the log of a call that has
  ended, by returning or by an exception of a sink, and the log of the first \<open>n\<close>
  iterations of any call, for every \<open>n\<close>.
\<close>

definition delivers ::
  "'id Lexer \<Rightarrow> string
     \<Rightarrow> (Location \<Rightarrow> 'id \<Rightarrow> nat \<Rightarrow> nat \<Rightarrow> 's \<Rightarrow> ('x, 's, 's) outcome)
     \<Rightarrow> (Location \<Rightarrow> 's \<Rightarrow> ('x, 's, 's) outcome)
     \<Rightarrow> 's \<Rightarrow> 'id event list \<Rightarrow> bool" where
  "delivers this script onMatch onError s log =
     ((\<exists>r this'. analyze this script (logged_onMatch onMatch) (logged_onError onError) (s, [])
                    = Some (r, this') \<and> log = snd (final r)) \<or>
      (\<exists>n. log = snd (after_body
                 (analyze_iterations n this script (logged_onMatch onMatch) (logged_onError onError)
                    \<lparr>location = \<lparr>line_number = 1, within_line = 1, global = 0\<rparr>,
                     cursor = 0, lastLineBegin = 0, sinks = (s, [])\<rparr>))))"

text \<open>Sinks that do nothing and return.\<close>

definition ignore_onMatch :: "Location \<Rightarrow> 'id \<Rightarrow> nat \<Rightarrow> nat \<Rightarrow> unit \<Rightarrow> ('x, unit, unit) outcome" where
  "ignore_onMatch loc id' lexemeBegin lexemeEnd s = Returns s"

definition ignore_onError :: "Location \<Rightarrow> unit \<Rightarrow> ('x, unit, unit) outcome" where
  "ignore_onError loc s = Returns s"

fun is_match :: "'id event \<Rightarrow> bool" where
  "is_match (match_event loc id' a b) = True"
| "is_match (no_match_event loc) = False"

fun event_location :: "'id event \<Rightarrow> Location" where
  "event_location (match_event loc id' a b) = loc"
| "event_location (no_match_event loc) = loc"

text \<open>The lexeme of an event: the characters of the script between its two iterators.\<close>

fun lexeme :: "string \<Rightarrow> 'id event \<Rightarrow> string" where
  "lexeme script (match_event loc id' a b) = subrange script a b"
| "lexeme script (no_match_event loc) = []"

subsection \<open>Expressions of the examples\<close>

text \<open>
  What the engine finds with three shapes of expression. A text of ordinary characters
  matches itself. A character class under \<open>+\<close> is greedy: the longest run first, then
  the shorter ones down to one character; under \<open>*\<close> the empty match comes last.
\<close>

definition literal :: "string \<Rightarrow> regex" where
  "literal w subject = (if take (length w) subject = w then [length w] else [])"

definition one_or_more :: "(char \<Rightarrow> bool) \<Rightarrow> regex" where
  "one_or_more p subject = rev [1 ..< Suc (length (takeWhile p subject))]"

definition zero_or_more :: "(char \<Rightarrow> bool) \<Rightarrow> regex" where
  "zero_or_more p subject = rev [0 ..< Suc (length (takeWhile p subject))]"

definition digit :: "char \<Rightarrow> bool" where
  "digit c = (c \<in> set ''0123456789'')"

datatype TOKEN_ID = TOKEN_INTEGER | TOKEN_NEWLINE | TOKEN_A | TOKEN_AB | TOKEN_X

text \<open>
  Three tables: \<open>INTEGER = [0-9]+\<close> before \<open>NEWLINE = \n\<close>; \<open>A = a\<close> before \<open>AB = ab\<close>;
  and \<open>X = ab\<close> before \<open>A = a\<close> before \<open>AB = ab\<close>.
\<close>

definition integer_newline_lexer :: "TOKEN_ID Lexer" where
  "integer_newline_lexer =
     \<lparr>m_expressions = [\<lparr>Expr = one_or_more digit, ID = TOKEN_INTEGER\<rparr>,
                        \<lparr>Expr = literal [newline], ID = TOKEN_NEWLINE\<rparr>]\<rparr>"

definition a_ab_lexer :: "TOKEN_ID Lexer" where
  "a_ab_lexer =
     \<lparr>m_expressions = [\<lparr>Expr = literal ''a'', ID = TOKEN_A\<rparr>,
                        \<lparr>Expr = literal ''ab'', ID = TOKEN_AB\<rparr>]\<rparr>"

text \<open>A table whose first rule can match the empty string: \<open>INTEGER = [0-9]*\<close>.\<close>

definition star_newline_lexer :: "TOKEN_ID Lexer" where
  "star_newline_lexer =
     \<lparr>m_expressions = [\<lparr>Expr = zero_or_more digit, ID = TOKEN_INTEGER\<rparr>,
                        \<lparr>Expr = literal [newline], ID = TOKEN_NEWLINE\<rparr>]\<rparr>"

definition x_a_ab_lexer :: "TOKEN_ID Lexer" where
  "x_a_ab_lexer =
     \<lparr>m_expressions = [\<lparr>Expr = literal ''ab'', ID = TOKEN_X\<rparr>,
                        \<lparr>Expr = literal ''a'', ID = TOKEN_A\<rparr>,
                        \<lparr>Expr = literal ''ab'', ID = TOKEN_AB\<rparr>]\<rparr>"

subsection \<open>Positions, lines and columns\<close>

text \<open>
  The vocabulary of the properties. \<open>newlines script c\<close> is the number of newline
  characters among the first \<open>c\<close> characters of the script. \<open>line_begin script c\<close> is
  the position of the character that follows the last newline among them, or 0 if there
  is none: \<open>c\<close> less the number of characters behind that newline. \<open>location_at script c\<close>
  is the location of position \<open>c\<close>: lines and columns count from 1, \<open>global\<close> from 0.
\<close>

definition newlines :: "string \<Rightarrow> nat \<Rightarrow> nat" where
  "newlines script c = length (filter (\<lambda>x. x = newline) (take c script))"

definition line_begin :: "string \<Rightarrow> nat \<Rightarrow> nat" where
  "line_begin script c = c - length (takeWhile (\<lambda>x. x \<noteq> newline) (rev (take c script)))"

definition location_at :: "string \<Rightarrow> nat \<Rightarrow> Location" where
  "location_at script c =
     \<lparr>line_number = 1 + newlines script c,
      within_line = 1 + (c - line_begin script c),
      global = c\<rparr>"

text \<open>
  The cursor behind a sequence of events: a match event leaves it at the end of its
  lexeme, a no-match event leaves it where it was, and it starts at 0.
\<close>

fun advance :: "nat \<Rightarrow> 'id event \<Rightarrow> nat" where
  "advance c (match_event loc id' a b) = b"
| "advance c (no_match_event loc) = c"

definition cursor_after :: "'id event list \<Rightarrow> nat" where
  "cursor_after log = foldl advance 0 log"

text \<open>
  A rule can match at a position when the search with its expression succeeds on the
  rest of the script from there.
\<close>

definition can_match :: "'id Lexer \<Rightarrow> string \<Rightarrow> nat \<Rightarrow> nat \<Rightarrow> bool" where
  "can_match this script c i =
     (regex_search (Expr (m_expressions this ! i)) (subrange script c (length script)) \<noteq> None)"

definition match_length :: "'id Lexer \<Rightarrow> string \<Rightarrow> nat \<Rightarrow> nat \<Rightarrow> nat" where
  "match_length this script c i =
     the (regex_search (Expr (m_expressions this ! i)) (subrange script c (length script)))"



text \<open>
  The event of an iteration that begins with the cursor at \<open>c\<close>, and the sequences of
  events of the iterations from the beginning of the script.
\<close>

definition event_at :: "'id Lexer \<Rightarrow> string \<Rightarrow> nat \<Rightarrow> 'id event" where
  "event_at this script c =
     (let match = SearchRegex this script c (length script)
      in if Token match = length (m_expressions this)
         then no_match_event (location_at script c)
         else match_event (location_at script c) (ID (m_expressions this ! Token match))
                (LexemeStart match) (LexemeEnd match))"

definition scan_log :: "'id Lexer \<Rightarrow> string \<Rightarrow> 'id event list \<Rightarrow> bool" where
  "scan_log this script log =
     (\<forall>k < length log.
        cursor_after (take k log) < length script \<and>
        log ! k = event_at this script (cursor_after (take k log)))"

text \<open>
  A script is composed of back-to-back substrings that each match some rule when it is
  their concatenation and, for each of them, the search with the expression of some rule
  of the table matches the whole substring.
\<close>

definition back_to_back :: "'id Lexer \<Rightarrow> string \<Rightarrow> string list \<Rightarrow> bool" where
  "back_to_back this script ws =
     (concat ws = script \<and>
      list_all (\<lambda>w. list_ex (\<lambda>d. regex_search (Expr d) w = Some (length w))
                        (m_expressions this)) ws)"

text \<open>
  A list of strings is the segmentation of the script from position \<open>c\<close> by first
  matches when the strings lie back to back from \<open>c\<close> to the end of the script and each
  of them is the match that the first rule of the table that can match at its position
  finds there.
\<close>

fun first_match_segments :: "'id Lexer \<Rightarrow> string \<Rightarrow> nat \<Rightarrow> string list \<Rightarrow> bool" where
  "first_match_segments this script c [] = (c = length script)"
| "first_match_segments this script c (w # ws) =
     (c < length script \<and>
      (\<exists>i < length (m_expressions this).
         can_match this script c i \<and> (\<forall>j < i. \<not> can_match this script c j) \<and>
         w = subrange script c (c + match_length this script c i) \<and>
         first_match_segments this script (c + match_length this script c i) ws))"

definition scan_inv :: "'id Lexer \<Rightarrow> string \<Rightarrow> ('s \<times> 'id event list) scan \<Rightarrow> bool" where
  "scan_inv this script st =
     (cursor st \<le> length script \<and>
      cursor st = cursor_after (snd (sinks st)) \<and>
      lastLineBegin st = line_begin script (cursor st) \<and>
      line_number (location st) = 1 + newlines script (cursor st) \<and>
      scan_log this script (snd (sinks st)))"

section \<open>The matching pass\<close>

lemma regex_search_Some:
  "regex_search expr subject = Some n \<Longrightarrow> 0 < n \<and> n \<le> length subject"
  by (auto simp: regex_search_def find_Some_iff)

lemma MatchRegex_from_none:
  "\<forall>d \<in> set ds. regex_search (Expr d) (subrange script start end') = None
   \<Longrightarrow> MatchRegex_from ds k script start end' = (k + length ds, end')"
  by (induction ds arbitrary: k) auto

lemma MatchRegex_from_first:
  "i < length ds \<Longrightarrow> regex_search (Expr (ds ! i)) (subrange script start end') = Some n
   \<Longrightarrow> \<forall>j < i. regex_search (Expr (ds ! j)) (subrange script start end') = None
   \<Longrightarrow> MatchRegex_from ds k script start end' = (k + i, start + n)"
proof (induction ds arbitrary: k i)
  case Nil
  then show ?case by simp
next
  case (Cons d ds)
  show ?case
  proof (cases i)
    case 0
    with Cons.prems show ?thesis by simp
  next
    case (Suc i')
    have h0: "regex_search (Expr d) (subrange script start end') = None"
      using Cons.prems(3) Suc by auto
    have "MatchRegex_from ds (Suc k) script start end' = (Suc k + i', start + n)"
      using Cons.prems Suc by (intro Cons.IH) auto
    with h0 Suc show ?thesis by simp
  qed
qed

lemma SearchRegex_no_match:
  assumes "c < length script"
    and "\<forall>i < length (m_expressions this). \<not> can_match this script c i"
  shows "SearchRegex this script c (length script) =
           \<lparr>Token = length (m_expressions this), LexemeStart = c, LexemeEnd = c\<rparr>"
proof -
  have "\<forall>d \<in> set (m_expressions this).
          regex_search (Expr d) (subrange script c (length script)) = None"
    using assms(2) by (auto simp: can_match_def in_set_conv_nth)
  from MatchRegex_from_none[OF this, of 0]
  show ?thesis using assms(1) by (simp add: SearchRegex_def MatchRegex_def)
qed

lemma SearchRegex_first:
  assumes "c < length script" and "i < length (m_expressions this)"
    and "can_match this script c i"
    and "\<forall>j < i. \<not> can_match this script c j"
  shows "SearchRegex this script c (length script) =
           \<lparr>Token = i, LexemeStart = c, LexemeEnd = c + match_length this script c i\<rparr>"
proof -
  obtain n where n: "regex_search (Expr (m_expressions this ! i)) (subrange script c (length script)) = Some n"
    using assms(3) by (auto simp: can_match_def)
  have "\<forall>j < i. regex_search (Expr (m_expressions this ! j)) (subrange script c (length script)) = None"
    using assms(4) by (auto simp: can_match_def)
  from MatchRegex_from_first[OF assms(2) n this, of 0]
  show ?thesis using assms(1,2) n
    by (simp add: SearchRegex_def MatchRegex_def match_length_def)
qed

lemma SearchRegex_cases:
  assumes "c < length script"
  obtains (no_match) "\<forall>i < length (m_expressions this). \<not> can_match this script c i"
      "SearchRegex this script c (length script) =
         \<lparr>Token = length (m_expressions this), LexemeStart = c, LexemeEnd = c\<rparr>"
  | (match) i where "i < length (m_expressions this)" "can_match this script c i"
      "\<forall>j < i. \<not> can_match this script c j"
      "SearchRegex this script c (length script) =
         \<lparr>Token = i, LexemeStart = c, LexemeEnd = c + match_length this script c i\<rparr>"
      "0 < match_length this script c i" "c + match_length this script c i \<le> length script"
proof (cases "\<forall>i < length (m_expressions this). \<not> can_match this script c i")
  case True
  show ?thesis by (rule no_match[OF True SearchRegex_no_match[OF assms True]])
next
  case False
  define i where "i = (LEAST i. i < length (m_expressions this) \<and> can_match this script c i)"
  from False have ex: "\<exists>i. i < length (m_expressions this) \<and> can_match this script c i" by blast
  have i: "i < length (m_expressions this) \<and> can_match this script c i"
    unfolding i_def using ex by (rule LeastI_ex)
  have least: "\<forall>j < i. \<not> can_match this script c j"
  proof (intro allI impI)
    fix j assume "j < i"
    then have "\<not> (j < length (m_expressions this) \<and> can_match this script c j)"
      unfolding i_def by (rule not_less_Least)
    with \<open>j < i\<close> i show "\<not> can_match this script c j" by simp
  qed
  obtain n where n: "regex_search (Expr (m_expressions this ! i)) (subrange script c (length script)) = Some n"
    using i by (auto simp: can_match_def)
  from regex_search_Some[OF n] have "0 < n" "n \<le> length script - c"
    by (simp_all add: subrange_def)
  then have ml: "0 < match_length this script c i" "c + match_length this script c i \<le> length script"
    using n assms by (simp_all add: match_length_def)
  from i have i1: "i < length (m_expressions this)" and i2: "can_match this script c i" by simp_all
  show ?thesis
    by (rule match[OF i1 i2 least SearchRegex_first[OF assms i1 i2 least] ml])
qed

section \<open>Counting lines\<close>

lemma newlines_Suc:
  "a < length script \<Longrightarrow>
     newlines script (Suc a) = (if script ! a = newline then Suc (newlines script a) else newlines script a)"
  by (simp add: newlines_def take_Suc_conv_app_nth)

lemma line_begin_le: "line_begin script c \<le> c"
  by (simp add: line_begin_def)

lemma line_begin_Suc:
  "a < length script \<Longrightarrow>
     line_begin script (Suc a) = (if script ! a = newline then Suc a else line_begin script a)"
proof -
  assume a: "a < length script"
  have "length (takeWhile (\<lambda>x. x \<noteq> newline) (rev (take a script))) \<le> a"
    by (rule order_trans[OF length_takeWhile_le]) simp
  then show ?thesis using a
    by (simp add: line_begin_def take_Suc_conv_app_nth)
qed

lemma newlines_split:
  "a \<le> b \<Longrightarrow>
     newlines script b = newlines script a + length (filter (\<lambda>x. x = newline) (subrange script a b))"
proof -
  assume "a \<le> b"
  then have "take b script = take a script @ take (b - a) (drop a script)"
    using take_add[of a "b - a" script] by simp
  then show ?thesis by (simp add: newlines_def subrange_def)
qed

lemma newlines_mono: "a \<le> b \<Longrightarrow> newlines script a \<le> newlines script b"
  by (simp add: newlines_split)

lemma line_begin_none:
  assumes "c \<le> length script" and "newline \<notin> set (take c script)"
  shows "line_begin script c = 0"
proof -
  have eq: "takeWhile (\<lambda>x. x \<noteq> newline) (rev (take c script)) = rev (take c script)"
    using assms(2) by (intro takeWhile_eq_all_conv[THEN iffD2]) auto
  show ?thesis unfolding line_begin_def eq using assms(1) by simp
qed

lemma line_begin_last:
  assumes "i < c" and "c \<le> length script" and "script ! i = newline"
    and "newline \<notin> set (subrange script (Suc i) c)"
  shows "line_begin script c = Suc i"
proof -
  have i: "i < length script" using assms(1,2) by simp
  have "take c script = take (Suc i) script @ subrange script (Suc i) c"
    using assms(1) take_add[of "Suc i" "c - Suc i" script] by (simp add: subrange_def)
  then have t: "take c script = take i script @ [newline] @ subrange script (Suc i) c"
    using i assms(3) by (simp add: take_Suc_conv_app_nth)
  have all: "\<And>x. x \<in> set (rev (subrange script (Suc i) c)) \<Longrightarrow> x \<noteq> newline"
    using assms(4) by auto
  have "takeWhile (\<lambda>x. x \<noteq> newline)
          (rev (subrange script (Suc i) c) @ newline # rev (take i script)) =
        rev (subrange script (Suc i) c) @ takeWhile (\<lambda>x. x \<noteq> newline) (newline # rev (take i script))"
    by (rule takeWhile_append2) (rule all)
  then have eq: "takeWhile (\<lambda>x. x \<noteq> newline) (rev (take c script)) = rev (subrange script (Suc i) c)"
    unfolding t by simp
  have len: "length (subrange script (Suc i) c) = c - Suc i"
    using assms(2) by (simp add: subrange_def)
  show ?thesis unfolding line_begin_def eq using assms(1) by (simp add: len)
qed

lemma CountLineNums_loop_eq:
  "a \<le> b \<Longrightarrow> b \<le> length script \<Longrightarrow> lb = line_begin script a \<Longrightarrow>
     CountLineNums_loop script a b lb n =
       (n + (newlines script b - newlines script a), line_begin script b)"
proof (induction script a b lb n rule: CountLineNums_loop.induct)
  case (1 script a b lb n)
  show ?case
  proof (cases "a < b")
    case False
    with "1.prems" have "a = b" by simp
    then show ?thesis using "1.prems" by (subst CountLineNums_loop.simps) simp
  next
    case True
    then have a: "a < length script" using "1.prems" by simp
    have mono: "newlines script (a + 1) \<le> newlines script b"
      using True by (intro newlines_mono) simp
    show ?thesis
    proof (cases "script ! a = newline")
      case nl: True
      have "CountLineNums_loop script (a + 1) b (a + 1) (n + 1) =
              (n + 1 + (newlines script b - newlines script (a + 1)), line_begin script b)"
        using True nl "1.prems" a by (intro "1.IH"(1)) (simp_all add: line_begin_Suc)
      then show ?thesis using True nl a mono
        by (subst CountLineNums_loop.simps) (simp add: newlines_Suc)
    next
      case nnl: False
      have "CountLineNums_loop script (a + 1) b lb n =
              (n + (newlines script b - newlines script (a + 1)), line_begin script b)"
        using True nnl "1.prems" a by (intro "1.IH"(2)) (simp_all add: line_begin_Suc)
      then show ?thesis using True nnl a
        by (subst CountLineNums_loop.simps) (simp add: newlines_Suc)
    qed
  qed
qed

lemma CountLineNums_eq:
  "a \<le> b \<Longrightarrow> b \<le> length script \<Longrightarrow>
     CountLineNums script a b (line_begin script a) =
       (newlines script b - newlines script a, line_begin script b)"
  by (simp add: CountLineNums_def CountLineNums_loop_eq)

section \<open>One iteration, and the loop\<close>

lemma CountLineNums_same: "CountLineNums script c c lb = (0, lb)"
  unfolding CountLineNums_def by (subst CountLineNums_loop.simps) simp

lemma analyze_body_no_match:
  assumes "SearchRegex this script (cursor st) (length script) =
             \<lparr>Token = length (m_expressions this), LexemeStart = cursor st, LexemeEnd = cursor st\<rparr>"
  shows "analyze_body this script onMatch onError st =
           (case onError ((location st)\<lparr>global := cursor st,
                                          within_line := 1 + cursor st - lastLineBegin st\<rparr>)
                   (sinks st) of
              Throws x s \<Rightarrow> Throws x s
            | Returns s \<Rightarrow>
                Returns (st\<lparr>location := (location st)\<lparr>global := cursor st,
                                 within_line := 1 + cursor st - lastLineBegin st\<rparr>,
                            sinks := s\<rparr>))"
  using assms
  by (simp add: analyze_body_def CountLineNums_same split: outcome.splits)

lemma analyze_body_match:
  assumes "SearchRegex this script (cursor st) (length script) =
             \<lparr>Token = i, LexemeStart = cursor st, LexemeEnd = e\<rparr>"
    and "i < length (m_expressions this)"
  shows "analyze_body this script onMatch onError st =
           (case onMatch ((location st)\<lparr>global := cursor st,
                                          within_line := 1 + cursor st - lastLineBegin st\<rparr>)
                   (ID (m_expressions this ! i)) (cursor st) e (sinks st) of
              Throws x s \<Rightarrow> Throws x s
            | Returns s \<Rightarrow>
                Returns \<lparr>location = (location st)\<lparr>global := cursor st,
                             within_line := 1 + cursor st - lastLineBegin st,
                             line_number := line_number (location st)
                               + fst (CountLineNums script (cursor st) e (lastLineBegin st))\<rparr>,
                         cursor = e,
                         lastLineBegin = snd (CountLineNums script (cursor st) e (lastLineBegin st)),
                         sinks = s\<rparr>)"
  using assms
  by (simp add: analyze_body_def Let_def case_prod_unfold split: outcome.splits)

lemma analyze_body_Throws:
  "analyze_body this script onMatch onError st = Throws x s \<Longrightarrow>
     (\<exists>loc s0. onError loc s0 = Throws x s) \<or>
     (\<exists>loc id' a b s0. onMatch loc id' a b s0 = Throws x s)"
  by (auto simp: analyze_body_def Let_def case_prod_unfold split: if_splits outcome.splits)

lemma analyze_while_Throws:
  assumes "analyze_while this script onMatch onError st = Some r"
  shows "\<forall>x s. r = Throws x s \<longrightarrow>
           (\<exists>loc s0. onError loc s0 = Throws x s) \<or>
           (\<exists>loc id' a b s0. onMatch loc id' a b s0 = Throws x s)"
proof (rule analyze_while.raw_induct[where
    P = "\<lambda>this script onMatch onError st r. \<forall>x s. r = Throws x s \<longrightarrow>
           (\<exists>loc s0. onError loc s0 = Throws x s) \<or>
           (\<exists>loc id' a b s0. onMatch loc id' a b s0 = Throws x s)", OF _ assms], goal_cases)
  case (1 analyze_while' this script onMatch onError st r)
  note IH = 1(1) and step = 1(2)
  show ?case
  proof (cases "cursor st < length script")
    case False
    with step show ?thesis by auto
  next
    case True
    show ?thesis
    proof (cases "analyze_body this script onMatch onError st")
      case (Returns st')
      with True step have "analyze_while' this script onMatch onError st' = Some r" by simp
      from IH[OF this] show ?thesis .
    next
      case (Throws y t)
      with True step have "r = Throws y t" by simp
      with analyze_body_Throws[OF Throws] show ?thesis by simp
    qed
  qed
qed

lemma analyze_while_stuck_aux:
  assumes "analyze_while this script onMatch onError st = Some r"
  shows "\<not> (cursor st < length script \<and>
        (\<forall>i < length (m_expressions this). \<not> can_match this script (cursor st) i) \<and>
        (\<forall>loc s. returned (onError loc s)))"
proof (rule analyze_while.raw_induct[where
    P = "\<lambda>this script onMatch onError st r. \<not> (cursor st < length script \<and>
        (\<forall>i < length (m_expressions this). \<not> can_match this script (cursor st) i) \<and>
        (\<forall>loc s. returned (onError loc s)))", OF _ assms], goal_cases)
  case (1 analyze_while' this script onMatch onError st r)
  note IH = 1(1) and step = 1(2)
  show ?case
  proof
    assume stuck: "cursor st < length script \<and>
        (\<forall>i < length (m_expressions this). \<not> can_match this script (cursor st) i) \<and>
        (\<forall>loc s. returned (onError loc s))"
    let ?loc = "(location st)\<lparr>global := cursor st, within_line := 1 + cursor st - lastLineBegin st\<rparr>"
    from stuck have sr: "SearchRegex this script (cursor st) (length script) =
        \<lparr>Token = length (m_expressions this), LexemeStart = cursor st, LexemeEnd = cursor st\<rparr>"
      by (intro SearchRegex_no_match) simp_all
    from stuck have "returned (onError ?loc (sinks st))" by blast
    then obtain s where s: "onError ?loc (sinks st) = Returns s"
      by (cases "onError ?loc (sinks st)") simp_all
    have body: "analyze_body this script onMatch onError st = Returns (st\<lparr>location := ?loc, sinks := s\<rparr>)"
      using s by (simp add: analyze_body_no_match[OF sr])
    with stuck step
    have "analyze_while' this script onMatch onError (st\<lparr>location := ?loc, sinks := s\<rparr>) = Some r"
      by simp
    from IH[OF this] stuck show False by simp
  qed
qed

lemma analyze_while_stuck:
  assumes "cursor st < length script"
    and "\<forall>i < length (m_expressions this). \<not> can_match this script (cursor st) i"
    and "\<forall>loc s. returned (onError loc s)"
  shows "analyze_while this script onMatch onError st = None"
proof (cases "analyze_while this script onMatch onError st")
  case None
  then show ?thesis .
next
  case (Some r)
  from analyze_while_stuck_aux[OF this] assms show ?thesis by blast
qed

lemma analyze_body_logged_match:
  assumes "SearchRegex this script (cursor st) (length script) =
             \<lparr>Token = i, LexemeStart = cursor st, LexemeEnd = e\<rparr>"
    and "i < length (m_expressions this)"
  shows "snd (after_body (analyze_body this script (logged_onMatch onMatch) (logged_onError onError) st)) =
           snd (sinks st) @
             [match_event ((location st)\<lparr>global := cursor st,
                             within_line := 1 + cursor st - lastLineBegin st\<rparr>)
                (ID (m_expressions this ! i)) (cursor st) e]"
  unfolding analyze_body_match[OF assms] logged_onMatch_def
  by (cases "onMatch ((location st)\<lparr>global := cursor st,
                             within_line := 1 + cursor st - lastLineBegin st\<rparr>)
                (ID (m_expressions this ! i)) (cursor st) e (fst (sinks st))")
     (simp_all add: logged_def)

lemma returned_logged: "returned (logged e log r) = returned r"
  by (cases r) (simp_all add: logged_def)

lemma analyze_body_logged_no_match:
  assumes "cursor st < length script"
    and "\<forall>i < length (m_expressions this). \<not> can_match this script (cursor st) i"
  shows "analyze_body this script (logged_onMatch onMatch) (logged_onError onError) st =
       (let loc = (location st)\<lparr>global := cursor st,
                                   within_line := 1 + cursor st - lastLineBegin st\<rparr>
        in case onError loc (fst (sinks st)) of
             Throws x s \<Rightarrow> Throws x (s, snd (sinks st) @ [no_match_event loc])
           | Returns s \<Rightarrow>
               Returns (st\<lparr>location := loc,
                           sinks := (s, snd (sinks st) @ [no_match_event loc])\<rparr>))"
proof -
  let ?loc = "(location st)\<lparr>global := cursor st, within_line := 1 + cursor st - lastLineBegin st\<rparr>"
  have sr: "SearchRegex this script (cursor st) (length script) =
      \<lparr>Token = length (m_expressions this), LexemeStart = cursor st, LexemeEnd = cursor st\<rparr>"
    by (rule SearchRegex_no_match[OF assms])
  show ?thesis
    unfolding analyze_body_no_match[OF sr] logged_onError_def Let_def
    by (cases "onError ?loc (fst (sinks st))") (simp_all add: logged_def)
qed

section \<open>The log of a scan\<close>

lemma cursor_after_Nil: "cursor_after [] = 0"
  by (simp add: cursor_after_def)

lemma cursor_after_snoc: "cursor_after (log @ [e]) = advance (cursor_after log) e"
  by (simp add: cursor_after_def)

lemma scan_log_Nil: "scan_log this script []"
  by (simp add: scan_log_def)

lemma scan_log_snoc:
  assumes "scan_log this script log" and "cursor_after log < length script"
    and "e = event_at this script (cursor_after log)"
  shows "scan_log this script (log @ [e])"
  unfolding scan_log_def
proof (intro allI impI)
  fix k assume "k < length (log @ [e])"
  then consider "k < length log" | "k = length log" by fastforce
  then show "cursor_after (take k (log @ [e])) < length script \<and>
             (log @ [e]) ! k = event_at this script (cursor_after (take k (log @ [e])))"
  proof cases
    case 1
    with assms(1) show ?thesis by (simp add: scan_log_def nth_append)
  next
    case 2
    with assms(2,3) show ?thesis by simp
  qed
qed

lemma scan_log_append: "scan_log this script (log @ rest) \<Longrightarrow> scan_log this script log"
  unfolding scan_log_def
proof (intro allI impI)
  fix k assume a: "\<forall>k<length (log @ rest).
            cursor_after (take k (log @ rest)) < length script \<and>
            (log @ rest) ! k = event_at this script (cursor_after (take k (log @ rest)))"
    and k: "k < length log"
  from k have "k < length (log @ rest)" by simp
  with a have "cursor_after (take k (log @ rest)) < length script \<and>
            (log @ rest) ! k = event_at this script (cursor_after (take k (log @ rest)))" by blast
  with k show "cursor_after (take k log) < length script \<and>
            log ! k = event_at this script (cursor_after (take k log))"
    by (simp add: nth_append)
qed

lemma event_at_no_match:
  assumes "c < length script"
    and "\<forall>i < length (m_expressions this). \<not> can_match this script c i"
  shows "event_at this script c = no_match_event (location_at script c)"
  by (simp add: event_at_def SearchRegex_no_match[OF assms])

lemma event_at_match:
  assumes "c < length script" and "i < length (m_expressions this)"
    and "can_match this script c i"
    and "\<forall>j < i. \<not> can_match this script c j"
  shows "event_at this script c =
           match_event (location_at script c) (ID (m_expressions this ! i)) c
             (c + match_length this script c i)"
  using assms(2) by (simp add: event_at_def SearchRegex_first[OF assms])

lemma location_inv:
  assumes "scan_inv this script st"
  shows "(location st)\<lparr>global := cursor st, within_line := 1 + cursor st - lastLineBegin st\<rparr> =
           location_at script (cursor st)"
proof -
  have "lastLineBegin st \<le> cursor st"
    using assms by (simp add: scan_inv_def line_begin_le)
  then show ?thesis using assms by (simp add: scan_inv_def location_at_def)
qed


lemma analyze_body_inv:
  fixes this :: "'id Lexer" and st :: "('s \<times> 'id event list) scan"
    and onMatch :: "Location \<Rightarrow> 'id \<Rightarrow> nat \<Rightarrow> nat \<Rightarrow> 's \<Rightarrow> ('x, 's, 's) outcome"
  assumes inv: "scan_inv this script st" and c: "cursor st < length script"
  shows "snd (after_body (analyze_body this script (logged_onMatch onMatch) (logged_onError onError) st))
           = snd (sinks st) @ [event_at this script (cursor st)] \<and>
         (\<forall>st'. analyze_body this script (logged_onMatch onMatch) (logged_onError onError) st
                  = Returns st' \<longrightarrow> scan_inv this script st')"
proof (rule SearchRegex_cases[OF c, of this], goal_cases)
  case 1
  let ?loc = "(location st)\<lparr>global := cursor st, within_line := 1 + cursor st - lastLineBegin st\<rparr>"
  let ?e = "no_match_event (location_at script (cursor st)) :: 'id event"
  have e: "event_at this script (cursor st) = ?e"
    by (rule event_at_no_match[OF c 1(1)])
  have loc: "?loc = location_at script (cursor st)" by (rule location_inv[OF inv])
  have body: "analyze_body this script (logged_onMatch onMatch) (logged_onError onError) st =
       (case onError ?loc (fst (sinks st)) of
             Throws x s \<Rightarrow> Throws x (s, snd (sinks st) @ [no_match_event ?loc])
           | Returns s \<Rightarrow>
               Returns (st\<lparr>location := ?loc,
                           sinks := (s, snd (sinks st) @ [no_match_event ?loc])\<rparr>))"
    by (rule analyze_body_logged_no_match[OF c 1(1), of onMatch onError, unfolded Let_def])
  have log': "scan_log this script (snd (sinks st) @ [?e])"
    using inv c e by (intro scan_log_snoc) (simp_all add: scan_inv_def)
  show ?case
  proof (cases "onError ?loc (fst (sinks st))")
    case (Returns s)
    have "analyze_body this script (logged_onMatch onMatch) (logged_onError onError) st =
        Returns (st\<lparr>location := ?loc, sinks := (s, snd (sinks st) @ [no_match_event ?loc])\<rparr>)"
      unfolding body Returns by simp
    moreover have "scan_inv this script
        (st\<lparr>location := ?loc, sinks := (s, snd (sinks st) @ [no_match_event ?loc])\<rparr>)"
      using inv log' unfolding loc
      by (simp add: scan_inv_def cursor_after_snoc location_at_def)
    ultimately show ?thesis using e loc by simp
  next
    case (Throws x s)
    have "analyze_body this script (logged_onMatch onMatch) (logged_onError onError) st =
        Throws x (s, snd (sinks st) @ [no_match_event ?loc])"
      unfolding body Throws by simp
    then show ?thesis using e loc by simp
  qed
next
  case (2 i)
  let ?loc = "(location st)\<lparr>global := cursor st, within_line := 1 + cursor st - lastLineBegin st\<rparr>"
  let ?b = "cursor st + match_length this script (cursor st) i"
  let ?e = "match_event (location_at script (cursor st)) (ID (m_expressions this ! i)) (cursor st) ?b"
  have e: "event_at this script (cursor st) = ?e"
    by (rule event_at_match[OF c 2(1) 2(2) 2(3)])
  have loc: "?loc = location_at script (cursor st)" by (rule location_inv[OF inv])
  have lb: "lastLineBegin st = line_begin script (cursor st)"
    using inv by (simp add: scan_inv_def)
  have cl: "CountLineNums script (cursor st) ?b (lastLineBegin st) =
      (newlines script ?b - newlines script (cursor st), line_begin script ?b)"
    unfolding lb by (rule CountLineNums_eq) (use 2(6) in simp_all)
  have log': "scan_log this script (snd (sinks st) @ [?e])"
    using inv c e by (intro scan_log_snoc) (simp_all add: scan_inv_def)
  have mono: "newlines script (cursor st) \<le> newlines script ?b"
    by (rule newlines_mono) simp
  note body = analyze_body_match[OF 2(4) 2(1), of "logged_onMatch onMatch" "logged_onError onError"]
  show ?case
  proof (cases "onMatch ?loc (ID (m_expressions this ! i)) (cursor st) ?b (fst (sinks st))")
    case (Returns s)
    then have r: "logged_onMatch onMatch ?loc (ID (m_expressions this ! i)) (cursor st) ?b (sinks st) =
        Returns (s, snd (sinks st) @ [match_event ?loc (ID (m_expressions this ! i)) (cursor st) ?b])"
      by (simp add: logged_onMatch_def logged_def)
    let ?st' = "\<lparr>location = (location st)\<lparr>global := cursor st,
                     within_line := 1 + cursor st - lastLineBegin st,
                     line_number := line_number (location st)
                       + fst (CountLineNums script (cursor st) ?b (lastLineBegin st))\<rparr>,
                 cursor = ?b,
                 lastLineBegin = snd (CountLineNums script (cursor st) ?b (lastLineBegin st)),
                 sinks = (s, snd (sinks st) @ [match_event ?loc (ID (m_expressions this ! i)) (cursor st) ?b])\<rparr>"
    have b: "analyze_body this script (logged_onMatch onMatch) (logged_onError onError) st = Returns ?st'"
      unfolding body r by simp
    have "scan_inv this script ?st'"
      using inv log' 2(6) mono unfolding cl loc
      by (simp add: scan_inv_def cursor_after_snoc)
    with b show ?thesis using e loc by simp
  next
    case (Throws x s)
    then have r: "logged_onMatch onMatch ?loc (ID (m_expressions this ! i)) (cursor st) ?b (sinks st) =
        Throws x (s, snd (sinks st) @ [match_event ?loc (ID (m_expressions this ! i)) (cursor st) ?b])"
      by (simp add: logged_onMatch_def logged_def)
    have "analyze_body this script (logged_onMatch onMatch) (logged_onError onError) st =
        Throws x (s, snd (sinks st) @ [match_event ?loc (ID (m_expressions this ! i)) (cursor st) ?b])"
      unfolding body r by simp
    then show ?thesis using e loc by simp
  qed
qed


lemma analyze_while_log:
  fixes this :: "'id Lexer" and st :: "('s \<times> 'id event list) scan"
    and onMatch :: "Location \<Rightarrow> 'id \<Rightarrow> nat \<Rightarrow> nat \<Rightarrow> 's \<Rightarrow> ('x, 's, 's) outcome"
  assumes "analyze_while this script (logged_onMatch onMatch) (logged_onError onError) st = Some r"
    and "scan_inv this script st"
  shows "scan_log this script (snd (final r)) \<and>
         (returned r \<longrightarrow> cursor_after (snd (final r)) = length script)"
proof -
  have "logged_onMatch onMatch = logged_onMatch onMatch \<longrightarrow>
        (logged_onError onError :: Location \<Rightarrow> 's \<times> 'id event list
            \<Rightarrow> ('x, 's \<times> 'id event list, 's \<times> 'id event list) outcome) = logged_onError onError \<longrightarrow>
        scan_inv this script st \<longrightarrow>
          scan_log this script (snd (final r)) \<and>
          (returned r \<longrightarrow> cursor_after (snd (final r)) = length script)"
  proof (rule analyze_while.raw_induct[where
      P = "\<lambda>this script onMatch' onError' st r.
             onMatch' = logged_onMatch onMatch \<longrightarrow> onError' = logged_onError onError \<longrightarrow>
             scan_inv this script st \<longrightarrow>
               scan_log this script (snd (final r)) \<and>
               (returned r \<longrightarrow> cursor_after (snd (final r)) = length script)",
      OF _ assms(1)], goal_cases)
    case (1 analyze_while' this script onMatch' onError' st r)
    note IH = 1(1) and step = 1(2)
    show ?case
    proof (intro impI)
      assume m: "onMatch' = logged_onMatch onMatch" and e: "onError' = logged_onError onError"
        and inv: "scan_inv this script st"
      show "scan_log this script (snd (final r)) \<and>
            (returned r \<longrightarrow> cursor_after (snd (final r)) = length script)"
      proof (cases "cursor st < length script")
        case False
        with step have r: "r = Returns (sinks st)" by simp
        from inv False have "cursor_after (snd (sinks st)) = length script"
          by (simp add: scan_inv_def)
        with inv r show ?thesis by (simp add: scan_inv_def)
      next
        case True
        note b = analyze_body_inv[OF inv True, of onMatch onError]
        show ?thesis
        proof (cases "analyze_body this script onMatch' onError' st")
          case (Returns st')
          with True step have w: "analyze_while' this script onMatch' onError' st' = Some r" by simp
          from b Returns m e have "scan_inv this script st'" by simp
          with IH[OF w] m e show ?thesis by blast
        next
          case (Throws x sl)
          with True step have r: "r = Throws x sl" by simp
          from b Throws m e have "snd sl = snd (sinks st) @ [event_at this script (cursor st)]"
            by simp
          moreover have "scan_log this script (snd (sinks st) @ [event_at this script (cursor st)])"
            using inv True by (intro scan_log_snoc) (simp_all add: scan_inv_def)
          ultimately show ?thesis using r by simp
        qed
      qed
    qed
  qed
  with assms(2) show ?thesis by blast
qed

lemma scan_inv_initial:
  "scan_inv this script
     \<lparr>location = \<lparr>line_number = 1, within_line = 1, global = 0\<rparr>,
      cursor = 0, lastLineBegin = 0, sinks = (s, [])\<rparr>"
  by (simp add: scan_inv_def cursor_after_Nil scan_log_Nil line_begin_def newlines_def)

lemma analyze_log:
  assumes "analyze this script (logged_onMatch onMatch) (logged_onError onError) (s, []) = Some (r, this')"
  shows "this' = this \<and> scan_log this script (snd (final r)) \<and>
         (returned r \<longrightarrow> cursor_after (snd (final r)) = length script)"
proof -
  from assms have w: "analyze_while this script (logged_onMatch onMatch) (logged_onError onError)
      \<lparr>location = \<lparr>line_number = 1, within_line = 1, global = 0\<rparr>,
       cursor = 0, lastLineBegin = 0, sinks = (s, [])\<rparr> = Some r" and t: "this' = this"
    by (auto simp: analyze_def)
  from analyze_while_log[OF w scan_inv_initial] t show ?thesis by simp
qed

lemma event_at_cases:
  assumes "c < length script"
  shows "event_at this script c = no_match_event (location_at script c) \<or>
         (\<exists>tok b. event_at this script c = match_event (location_at script c) tok c b \<and>
                  c < b \<and> b \<le> length script)"
proof (rule SearchRegex_cases[OF assms, of this], goal_cases)
  case 1
  from event_at_no_match[OF assms 1(1)] show ?case by simp
next
  case (2 i)
  have "c < c + match_length this script c i" using 2(5) by simp
  with event_at_match[OF assms 2(1) 2(2) 2(3)] 2(6) show ?case by blast
qed

lemma cursor_after_take_Suc:
  "k < length log \<Longrightarrow>
     cursor_after (take (Suc k) log) = advance (cursor_after (take k log)) (log ! k)"
  by (simp add: take_Suc_conv_app_nth cursor_after_snoc)

lemma scan_log_nth:
  "scan_log this script log \<Longrightarrow> k < length log \<Longrightarrow>
     cursor_after (take k log) < length script \<and>
     log ! k = event_at this script (cursor_after (take k log))"
  by (simp add: scan_log_def)

lemma scan_log_event:
  assumes "scan_log this script log" and "k < length log"
  shows "event_location (log ! k) = location_at script (cursor_after (take k log)) \<and>
         (\<forall>loc tok a b. log ! k = match_event loc tok a b \<longrightarrow>
            a = cursor_after (take k log) \<and> a < b \<and> b \<le> length script)"
proof -
  from scan_log_nth[OF assms]
  have c: "cursor_after (take k log) < length script"
    and e: "log ! k = event_at this script (cursor_after (take k log))" by simp_all
  show ?thesis
    using event_at_cases[OF c, of this] by (auto simp: e)
qed

lemma scan_log_lexemes:
  "scan_log this script log \<Longrightarrow>
     concat (map (lexeme script) log) = take (cursor_after log) script \<and>
     cursor_after log \<le> length script"
proof (induction log rule: rev_induct)
  case Nil
  then show ?case by (simp add: cursor_after_Nil)
next
  case (snoc e log)
  from snoc.prems have sl: "scan_log this script log" by (rule scan_log_append)
  note IH = snoc.IH[OF sl]
  have "length log < length (log @ [e])" by simp
  from scan_log_nth[OF snoc.prems this]
  have c: "cursor_after log < length script"
    and e: "e = event_at this script (cursor_after log)" by simp_all
  consider (nm) "e = no_match_event (location_at script (cursor_after log))"
    | (m) tok b where "e = match_event (location_at script (cursor_after log)) tok (cursor_after log) b"
        "cursor_after log < b" "b \<le> length script"
    using event_at_cases[OF c, of this] e by auto
  then show ?case
  proof cases
    case nm
    with IH show ?thesis by (simp add: cursor_after_snoc)
  next
    case m
    have "take b script = take (cursor_after log) script @ subrange script (cursor_after log) b"
      using m(2) take_add[of "cursor_after log" "b - cursor_after log" script]
      by (simp add: subrange_def)
    with m IH show ?thesis by (simp add: cursor_after_snoc)
  qed
qed

lemma scan_log_stays:
  assumes "scan_log this script log" and "k < length log" and "\<not> is_match (log ! k)"
  shows "k \<le> m \<Longrightarrow> m \<le> length log \<Longrightarrow>
           cursor_after (take m log) = cursor_after (take k log)"
proof (induction m)
  case 0
  then show ?case by simp
next
  case (Suc m)
  show ?case
  proof (cases "k = Suc m")
    case True
    then show ?thesis by simp
  next
    case False
    with Suc.prems have km: "k \<le> m" and m: "m < length log" by simp_all
    from Suc.IH[OF km] m have c: "cursor_after (take m log) = cursor_after (take k log)" by simp
    from scan_log_nth[OF assms(1) m] scan_log_nth[OF assms(1,2)] c
    have "log ! m = log ! k" by simp
    with assms(3) have "advance (cursor_after (take m log)) (log ! m) = cursor_after (take m log)"
      by (cases "log ! k") simp_all
    with c m show ?thesis by (simp add: cursor_after_take_Suc)
  qed
qed

lemma scan_log_all_matches:
  assumes "scan_log this script log" and "cursor_after log = length script"
  shows "list_all is_match log"
proof (rule ccontr)
  assume "\<not> list_all is_match log"
  then obtain k where k: "k < length log" and nm: "\<not> is_match (log ! k)"
    by (auto simp: list_all_length)
  from scan_log_stays[OF assms(1) k nm, of "length log"] k
  have "cursor_after log = cursor_after (take k log)" by simp
  with scan_log_nth[OF assms(1) k] assms(2) show False by simp
qed

lemma scan_log_determined:
  assumes "scan_log this script l1" and "scan_log this script l2"
  shows "k \<le> length l1 \<Longrightarrow> k \<le> length l2 \<Longrightarrow> take k l1 = take k l2"
proof (induction k)
  case 0
  then show ?case by simp
next
  case (Suc k)
  then have k1: "k < length l1" and k2: "k < length l2" by simp_all
  from Suc.IH k1 k2 have t: "take k l1 = take k l2" by simp
  from scan_log_nth[OF assms(1) k1] scan_log_nth[OF assms(2) k2] t
  have "l1 ! k = l2 ! k" by simp
  with t k1 k2 show ?case by (simp add: take_Suc_conv_app_nth)
qed

lemma scan_log_prefix:
  assumes "scan_log this script l1" and "scan_log this script l2" and "length l1 \<le> length l2"
  shows "prefix l1 l2"
proof -
  from scan_log_determined[OF assms(1,2), of "length l1"] assms(3)
  have "l1 = take (length l1) l2" by simp
  then show ?thesis by (metis take_is_prefix)
qed

lemma scan_log_complete_eq:
  assumes "scan_log this script l1" and "scan_log this script l2"
    and "cursor_after l1 = length script" and "cursor_after l2 = length script"
  shows "l1 = l2"
proof -
  have *: "l1 = l2" if l: "length l1 \<le> length l2" and s1: "scan_log this script l1"
    and s2: "scan_log this script l2" and c1: "cursor_after l1 = length script"
    for l1 l2 :: "'a event list"
  proof -
    from scan_log_determined[OF s1 s2, of "length l1"] l
    have t: "l1 = take (length l1) l2" by simp
    have "\<not> length l1 < length l2"
    proof
      assume "length l1 < length l2"
      from scan_log_nth[OF s2 this] t c1 show False by simp
    qed
    with l t show ?thesis by simp
  qed
  show ?thesis
  proof (cases "length l1 \<le> length l2")
    case True
    from *[OF True assms(1,2,3)] show ?thesis .
  next
    case False
    then have "length l2 \<le> length l1" by simp
    from *[OF this assms(2,1,4)] show ?thesis by simp
  qed
qed

lemma analyze_iterations_log:
  fixes this :: "'id Lexer" and st :: "('s \<times> 'id event list) scan"
    and onMatch :: "Location \<Rightarrow> 'id \<Rightarrow> nat \<Rightarrow> nat \<Rightarrow> 's \<Rightarrow> ('x, 's, 's) outcome"
  shows "scan_inv this script st \<Longrightarrow>
     scan_log this script
       (snd (after_body (analyze_iterations n this script
               (logged_onMatch onMatch) (logged_onError onError) st)))"
proof (induction n arbitrary: st)
  case 0
  then show ?case by (simp add: scan_inv_def)
next
  case (Suc n)
  show ?case
  proof (cases "cursor st < length script")
    case False
    with Suc.prems show ?thesis by (simp add: scan_inv_def)
  next
    case True
    note b = analyze_body_inv[OF Suc.prems True, of onMatch onError]
    show ?thesis
    proof (cases "analyze_body this script (logged_onMatch onMatch) (logged_onError onError) st")
      case (Returns st')
      with b have "scan_inv this script st'" by simp
      from Suc.IH[OF this] True Returns show ?thesis by simp
    next
      case (Throws x sl)
      with b have "snd sl = snd (sinks st) @ [event_at this script (cursor st)]" by simp
      moreover have "scan_log this script (snd (sinks st) @ [event_at this script (cursor st)])"
        using Suc.prems True by (intro scan_log_snoc) (simp_all add: scan_inv_def)
      ultimately show ?thesis using True Throws by simp
    qed
  qed
qed

lemma delivers_scan_log:
  assumes "delivers this script onMatch onError s log"
  shows "scan_log this script log"
  using assms unfolding delivers_def
proof (elim disjE exE conjE)
  fix r this'
  assume "analyze this script (logged_onMatch onMatch) (logged_onError onError) (s, []) = Some (r, this')"
    and "log = snd (final r)"
  with analyze_log[of this script onMatch onError s r this'] show ?thesis by simp
next
  fix n
  assume l: "log = snd (after_body
                 (analyze_iterations n this script (logged_onMatch onMatch) (logged_onError onError)
                    \<lparr>location = \<lparr>line_number = 1, within_line = 1, global = 0\<rparr>,
                     cursor = 0, lastLineBegin = 0, sinks = (s, [])\<rparr>))"
  show ?thesis unfolding l by (rule analyze_iterations_log[OF scan_inv_initial])
qed

lemma delivers_finished:
  "analyze this script (logged_onMatch onMatch) (logged_onError onError) (s, []) = Some (r, this')
   \<Longrightarrow> delivers this script onMatch onError s (snd (final r))"
  unfolding delivers_def by blast

lemma analyze_while_segments:
  fixes this :: "'id Lexer" and st :: "('s \<times> 'id event list) scan"
    and onMatch :: "Location \<Rightarrow> 'id \<Rightarrow> nat \<Rightarrow> nat \<Rightarrow> 's \<Rightarrow> ('x, 's, 's) outcome"
  assumes ret: "\<forall>loc tok a b s. returned (onMatch loc tok a b s)"
  shows "scan_inv this script st \<Longrightarrow> first_match_segments this script (cursor st) ws \<Longrightarrow>
     \<exists>sl. analyze_while this script (logged_onMatch onMatch) (logged_onError onError) st
            = Some (Returns sl) \<and>
          map (lexeme script) (snd sl) = map (lexeme script) (snd (sinks st)) @ ws"
proof (induction ws arbitrary: st)
  case Nil
  then have "cursor st = length script" by simp
  then have "analyze_while this script (logged_onMatch onMatch) (logged_onError onError) st
      = Some (Returns (sinks st))"
    by (subst analyze_while.simps) simp
  then show ?case by simp
next
  case (Cons w ws)
  let ?c = "cursor st"
  let ?m = "SearchRegex this script ?c (length script)"
  let ?loc = "(location st)\<lparr>global := ?c, within_line := 1 + ?c - lastLineBegin st\<rparr>"
  from Cons.prems(2) obtain i where c: "?c < length script"
    and i: "i < length (m_expressions this)"
    and ci: "can_match this script ?c i" and first: "\<forall>j < i. \<not> can_match this script ?c j"
    and w: "w = subrange script ?c (?c + match_length this script ?c i)"
    and seg: "first_match_segments this script (?c + match_length this script ?c i) ws"
    by auto
  have m: "?m = \<lparr>Token = i, LexemeStart = ?c, LexemeEnd = ?c + match_length this script ?c i\<rparr>"
    by (rule SearchRegex_first[OF c i ci first])
  let ?e = "?c + match_length this script ?c i"
  have e: "LexemeEnd ?m = ?e" by (simp add: m)
  from ret obtain s' where
    s': "onMatch ?loc (ID (m_expressions this ! i)) ?c ?e (fst (sinks st)) = Returns s'"
    by (metis returned.elims(2))
  have r: "logged_onMatch onMatch ?loc (ID (m_expressions this ! i)) ?c ?e (sinks st) =
      Returns (s', snd (sinks st) @ [match_event ?loc (ID (m_expressions this ! i)) ?c ?e])"
    using s' by (simp add: logged_onMatch_def logged_def)
  let ?st' = "\<lparr>location = (location st)\<lparr>global := ?c,
                   within_line := 1 + ?c - lastLineBegin st,
                   line_number := line_number (location st)
                     + fst (CountLineNums script ?c ?e (lastLineBegin st))\<rparr>,
               cursor = ?e,
               lastLineBegin = snd (CountLineNums script ?c ?e (lastLineBegin st)),
               sinks = (s', snd (sinks st) @ [match_event ?loc (ID (m_expressions this ! i)) ?c ?e])\<rparr>"
  have body: "analyze_body this script (logged_onMatch onMatch) (logged_onError onError) st
      = Returns ?st'"
    unfolding analyze_body_match[OF m i] r by simp
  from analyze_body_inv[OF Cons.prems(1) c, of onMatch onError] body
  have inv': "scan_inv this script ?st'" by blast
  have seg': "first_match_segments this script (cursor ?st') ws" using seg e by simp
  from Cons.IH[OF inv' seg'] obtain sl where
    sl: "analyze_while this script (logged_onMatch onMatch) (logged_onError onError) ?st'
           = Some (Returns sl)"
    and lx: "map (lexeme script) (snd sl) = map (lexeme script) (snd (sinks ?st')) @ ws"
    by blast
  have "analyze_while this script (logged_onMatch onMatch) (logged_onError onError) st
      = Some (Returns sl)"
    using c sl by (subst analyze_while.simps, unfold body) simp
  moreover have "map (lexeme script) (snd sl) = map (lexeme script) (snd (sinks st)) @ w # ws"
    using lx w e by simp
  ultimately show ?case by blast
qed




lemma analyze_iterations_stuck:
  fixes this :: "'id Lexer"
    and onError :: "Location \<Rightarrow> 's \<Rightarrow> ('x, 's, 's) outcome"
  assumes "c < length script"
    and "\<forall>i < length (m_expressions this). \<not> can_match this script c i"
    and "\<forall>loc s. returned (onError loc s)"
  shows "\<exists>s'. analyze_iterations n this script (logged_onMatch onMatch) (logged_onError onError)
                \<lparr>location = loc, cursor = c, lastLineBegin = lb, sinks = (s, log)\<rparr> =
              Returns \<lparr>location = (if n = 0 then loc
                                     else loc\<lparr>global := c, within_line := 1 + c - lb\<rparr>),
                       cursor = c, lastLineBegin = lb,
                       sinks = (s', log @ replicate n
                                  (no_match_event (loc\<lparr>global := c, within_line := 1 + c - lb\<rparr>)))\<rparr>"
proof (induction n arbitrary: loc s log)
  case 0
  show ?case by simp
next
  case (Suc n)
  let ?st = "\<lparr>location = loc, cursor = c, lastLineBegin = lb, sinks = (s, log)\<rparr>
               :: ('s \<times> 'id event list) scan"
  let ?loc = "loc\<lparr>global := c, within_line := 1 + c - lb\<rparr>"
  have c: "cursor ?st < length script" using assms(1) by simp
  have nm: "\<forall>i < length (m_expressions this). \<not> can_match this script (cursor ?st) i"
    using assms(2) by simp
  from assms(3) obtain s1 where s1: "onError ?loc s = Returns s1"
    by (metis returned.elims(2))
  have body: "analyze_body this script (logged_onMatch onMatch) (logged_onError onError) ?st =
      Returns \<lparr>location = ?loc, cursor = c, lastLineBegin = lb,
               sinks = (s1, log @ [no_match_event ?loc])\<rparr>"
    unfolding analyze_body_logged_no_match[OF c nm] using s1 by (simp add: Let_def)
  from Suc.IH[of ?loc s1 "log @ [no_match_event ?loc]"] obtain s' where
    ih: "analyze_iterations n this script (logged_onMatch onMatch) (logged_onError onError)
                \<lparr>location = ?loc, cursor = c, lastLineBegin = lb,
                 sinks = (s1, log @ [no_match_event ?loc])\<rparr> =
              Returns \<lparr>location = ?loc, cursor = c, lastLineBegin = lb,
                       sinks = (s', (log @ [no_match_event ?loc]) @ replicate n (no_match_event ?loc))\<rparr>"
    by (auto split: if_splits)
  have "analyze_iterations (Suc n) this script (logged_onMatch onMatch) (logged_onError onError) ?st =
      Returns \<lparr>location = ?loc, cursor = c, lastLineBegin = lb,
               sinks = (s', log @ replicate (Suc n) (no_match_event ?loc))\<rparr>"
    unfolding analyze_iterations.simps body using c ih by (simp add: replicate_append_same)
  then show ?case by auto
qed

text \<open>The rules that evaluate the definitions on a concrete table and script.\<close>

lemmas run_simps = analyze_def analyze_body_def SearchRegex_def MatchRegex_def regex_search_def
  subrange_def literal_def one_or_more_def zero_or_more_def digit_def newline_def
  CountLineNums_def logged_onMatch_def logged_onError_def logged_def ErrorHandler_def
  ignore_onMatch_def ignore_onError_def integer_newline_lexer_def a_ab_lexer_def x_a_ab_lexer_def
  star_newline_lexer_def can_match_def match_length_def Let_def

text \<open>Four scans, evaluated.\<close>

lemma run_integer_newline:
  "analyze integer_newline_lexer (''12'' @ [newline] @ ''34'')
     (logged_onMatch ignore_onMatch) (logged_onError onError) ((), []) =
   Some (Returns ((),
     [match_event \<lparr>line_number = 1, within_line = 1, global = 0\<rparr> TOKEN_INTEGER 0 2,
      match_event \<lparr>line_number = 1, within_line = 3, global = 2\<rparr> TOKEN_NEWLINE 2 3,
      match_event \<lparr>line_number = 2, within_line = 1, global = 3\<rparr> TOKEN_INTEGER 3 5]),
     integer_newline_lexer)"
  by (simp add: run_simps analyze_while.simps CountLineNums_loop.simps)


lemma run_a_ab:
  "analyze a_ab_lexer ''ab'' (logged_onMatch ignore_onMatch) (logged_onError ErrorHandler) ((), []) =
   Some (Throws (SyntaxErrorException \<lparr>line_number = 1, within_line = 2, global = 1\<rparr>)
          ((), [match_event \<lparr>line_number = 1, within_line = 1, global = 0\<rparr> TOKEN_A 0 1,
                no_match_event \<lparr>line_number = 1, within_line = 2, global = 1\<rparr>]),
         a_ab_lexer)"
  by (simp add: run_simps analyze_while.simps CountLineNums_loop.simps)

lemma run_a_ab_abort:
  "analyze a_ab_lexer ''ab''
     (logged_onMatch (\<lambda>loc tok a b s. Throws (SyntaxErrorException loc) s))
     (logged_onError ErrorHandler) ((), []) =
   Some (Throws (SyntaxErrorException \<lparr>line_number = 1, within_line = 1, global = 0\<rparr>)
          ((), [match_event \<lparr>line_number = 1, within_line = 1, global = 0\<rparr> TOKEN_A 0 1]),
         a_ab_lexer)"
  by (simp add: run_simps analyze_while.simps CountLineNums_loop.simps)

section \<open>The properties\<close>

subsection \<open>Empty input\<close>

text \<open>
  C9. On the empty script, \<open>analyze\<close> returns at once, for every table and all sinks: the
  state of the sinks is the one it was called with, so neither sink has been called, and
  with logging sinks the log of delivered events stays empty.
\<close>

theorem analyze_empty_input:
  "analyze this [] onMatch onError s = Some (Returns s, this) \<and>
   analyze this [] (logged_onMatch onMatch) (logged_onError onError) (s, []) =
     Some (Returns (s, []), this)"
  unfolding analyze_def by (subst analyze_while.simps, simp)+

subsection \<open>Precedence of the earlier rule\<close>

text \<open>
  C1, amended. At a position of the script where two rules R1 and R2 of the table can both
  match and R1 was registered before R2, the scanner never selects a rule registered
  after R1, so never R2, whatever the lengths of the two matches. If moreover no rule
  registered before R1 can match there, it selects R1 and reports R1's match: the
  iteration delivers the match event with R1's identifier and R1's lexeme.
\<close>

theorem earliest_matching_rule_selected:
  assumes "c < length script" and "i < j" and "j < length (m_expressions this)"
    and "can_match this script c i" and "can_match this script c j"
  shows "Token (SearchRegex this script c (length script)) \<le> i \<and>
         ((\<forall>k < i. \<not> can_match this script c k) \<longrightarrow>
            SearchRegex this script c (length script) =
              \<lparr>Token = i, LexemeStart = c, LexemeEnd = c + match_length this script c i\<rparr> \<and>
            (cursor st = c \<longrightarrow>
               snd (after_body (analyze_body this script
                      (logged_onMatch onMatch) (logged_onError onError) st)) =
                 snd (sinks st) @
                   [match_event ((location st)\<lparr>global := c,
                                   within_line := 1 + c - lastLineBegin st\<rparr>)
                      (ID (m_expressions this ! i)) c (c + match_length this script c i)]))"
proof (intro conjI impI)
  have i: "i < length (m_expressions this)" using assms(2,3) by simp
  show "Token (SearchRegex this script c (length script)) \<le> i"
  proof (rule SearchRegex_cases[OF assms(1), of this], goal_cases)
    case 1
    with i assms(4) show ?case by blast
  next
    case (2 i')
    have "i' \<le> i"
    proof (rule ccontr)
      assume "\<not> i' \<le> i"
      then have "i < i'" by simp
      with 2(3) assms(4) show False by blast
    qed
    with 2(4) show ?case by simp
  qed
  assume first: "\<forall>k < i. \<not> can_match this script c k"
  show sr: "SearchRegex this script c (length script) =
              \<lparr>Token = i, LexemeStart = c, LexemeEnd = c + match_length this script c i\<rparr>"
    by (rule SearchRegex_first[OF assms(1) i assms(4) first])
  assume c: "cursor st = c"
  show "snd (after_body (analyze_body this script
                      (logged_onMatch onMatch) (logged_onError onError) st)) =
                 snd (sinks st) @
                   [match_event ((location st)\<lparr>global := c,
                                   within_line := 1 + c - lastLineBegin st\<rparr>)
                      (ID (m_expressions this ! i)) c (c + match_length this script c i)]"
    using analyze_body_logged_match[of this script st i "c + match_length this script c i" onMatch onError]
      sr c i by simp
qed

text \<open>
  The table \<open>A = a\<close>, \<open>AB = ab\<close> on the script \<open>ab\<close>: both rules match at the start, the
  match of \<open>AB\<close> is the longer one, and \<open>A\<close> is reported with the lexeme \<open>a\<close>.
\<close>

theorem earliest_matching_rule_selected_witness:
  "can_match a_ab_lexer ''ab'' 0 0 \<and> can_match a_ab_lexer ''ab'' 0 1 \<and>
   match_length a_ab_lexer ''ab'' 0 0 = 1 \<and> match_length a_ab_lexer ''ab'' 0 1 = 2 \<and>
   SearchRegex a_ab_lexer ''ab'' 0 (length ''ab'') = \<lparr>Token = 0, LexemeStart = 0, LexemeEnd = 1\<rparr> \<and>
   snd (after_body (analyze_body a_ab_lexer ''ab''
          (logged_onMatch ignore_onMatch) (logged_onError ErrorHandler)
          \<lparr>location = \<lparr>line_number = 1, within_line = 1, global = 0\<rparr>,
           cursor = 0, lastLineBegin = 0, sinks = ((), [])\<rparr>)) =
     [match_event \<lparr>line_number = 1, within_line = 1, global = 0\<rparr> TOKEN_A 0 1]"
  using earliest_matching_rule_selected[of 0 "''ab''" 0 1 a_ab_lexer
      "\<lparr>location = \<lparr>line_number = 1, within_line = 1, global = 0\<rparr>,
           cursor = 0, lastLineBegin = 0, sinks = ((), [])\<rparr>" ignore_onMatch ErrorHandler]
  by (simp add: run_simps)

text \<open>
  C1 as stated fails when a rule registered before R1 matches too. In the table
  \<open>X = ab\<close>, \<open>A = a\<close>, \<open>AB = ab\<close> the rules \<open>A\<close> and \<open>AB\<close> can both match at the start of
  the script \<open>ab\<close>, and \<open>A\<close> was registered before \<open>AB\<close>; the scanner selects neither of
  them: it reports \<open>X\<close> with the lexeme \<open>ab\<close>, not \<open>A\<close> with the lexeme \<open>a\<close>.
\<close>

theorem later_rule_counterexample:
  "can_match x_a_ab_lexer ''ab'' 0 1 \<and> can_match x_a_ab_lexer ''ab'' 0 2 \<and>
   match_length x_a_ab_lexer ''ab'' 0 1 = 1 \<and> match_length x_a_ab_lexer ''ab'' 0 2 = 2 \<and>
   SearchRegex x_a_ab_lexer ''ab'' 0 (length ''ab'') = \<lparr>Token = 0, LexemeStart = 0, LexemeEnd = 2\<rparr> \<and>
   analyze x_a_ab_lexer ''ab'' (logged_onMatch ignore_onMatch) (logged_onError ErrorHandler) ((), []) =
     Some (Returns ((), [match_event \<lparr>line_number = 1, within_line = 1, global = 0\<rparr> TOKEN_X 0 2]),
           x_a_ab_lexer)"
  by (simp add: run_simps analyze_while.simps CountLineNums_loop.simps)

subsection \<open>An iteration in which no rule matches\<close>

text \<open>
  C5. In an iteration that begins at a position where no rule can match, the one pass of
  \<open>MatchRegex\<close> runs through the table to its end and finds nothing, and the iteration is
  one call of the error sink with the current location: the sinks' state changes as that
  one call changes it, the log grows by exactly one no-match event with that location
  and by no match event, and if the sink returns, the cursor, the beginning of the line
  and the line number are what they were, so the cursor has moved neither forward nor
  back.
\<close>

theorem no_match_iteration:
  assumes "cursor st < length script"
    and "\<forall>i < length (m_expressions this). \<not> can_match this script (cursor st) i"
  shows "MatchRegex this script (cursor st) (length script) =
           (length (m_expressions this), length script) \<and>
         analyze_body this script (logged_onMatch onMatch) (logged_onError onError) st =
           (let loc = (location st)\<lparr>global := cursor st,
                                       within_line := 1 + cursor st - lastLineBegin st\<rparr>
            in case onError loc (fst (sinks st)) of
                 Throws x s \<Rightarrow> Throws x (s, snd (sinks st) @ [no_match_event loc])
               | Returns s \<Rightarrow>
                   Returns (st\<lparr>location := loc,
                               sinks := (s, snd (sinks st) @ [no_match_event loc])\<rparr>)) \<and>
         (\<forall>st'. analyze_body this script (logged_onMatch onMatch) (logged_onError onError) st
                  = Returns st' \<longrightarrow>
                cursor st' = cursor st \<and> lastLineBegin st' = lastLineBegin st \<and>
                line_number (location st') = line_number (location st))"
proof (intro conjI)
  have "\<forall>d \<in> set (m_expressions this).
          regex_search (Expr d) (subrange script (cursor st) (length script)) = None"
    using assms(2) by (auto simp: can_match_def in_set_conv_nth)
  from MatchRegex_from_none[OF this, of 0]
  show "MatchRegex this script (cursor st) (length script) =
           (length (m_expressions this), length script)"
    by (simp add: MatchRegex_def)
  show body: "analyze_body this script (logged_onMatch onMatch) (logged_onError onError) st =
           (let loc = (location st)\<lparr>global := cursor st,
                                       within_line := 1 + cursor st - lastLineBegin st\<rparr>
            in case onError loc (fst (sinks st)) of
                 Throws x s \<Rightarrow> Throws x (s, snd (sinks st) @ [no_match_event loc])
               | Returns s \<Rightarrow>
                   Returns (st\<lparr>location := loc,
                               sinks := (s, snd (sinks st) @ [no_match_event loc])\<rparr>))"
    by (rule analyze_body_logged_no_match[OF assms])
  show "\<forall>st'. analyze_body this script (logged_onMatch onMatch) (logged_onError onError) st
                  = Returns st' \<longrightarrow>
                cursor st' = cursor st \<and> lastLineBegin st' = lastLineBegin st \<and>
                line_number (location st') = line_number (location st)"
    unfolding body Let_def by (auto split: outcome.splits)
qed

text \<open>
  The table \<open>INTEGER\<close>, \<open>NEWLINE\<close> at the \<open>$\<close> of the script \<open>12$\<close>, with an error sink
  that throws and with one that returns.
\<close>

theorem no_match_iteration_witness:
  "MatchRegex integer_newline_lexer ''12$'' 2 (length ''12$'') = (2, 3) \<and>
   analyze_body integer_newline_lexer ''12$'' (logged_onMatch ignore_onMatch) (logged_onError ErrorHandler)
     \<lparr>location = \<lparr>line_number = 1, within_line = 1, global = 0\<rparr>, cursor = 2, lastLineBegin = 0,
      sinks = ((), [match_event \<lparr>line_number = 1, within_line = 1, global = 0\<rparr> TOKEN_INTEGER 0 2])\<rparr> =
     Throws (SyntaxErrorException \<lparr>line_number = 1, within_line = 3, global = 2\<rparr>)
       ((), [match_event \<lparr>line_number = 1, within_line = 1, global = 0\<rparr> TOKEN_INTEGER 0 2,
             no_match_event \<lparr>line_number = 1, within_line = 3, global = 2\<rparr>]) \<and>
   analyze_body integer_newline_lexer ''12$'' (logged_onMatch ignore_onMatch)
     (logged_onError (ignore_onError :: Location \<Rightarrow> unit \<Rightarrow> (SyntaxErrorException, unit, unit) outcome))
     \<lparr>location = \<lparr>line_number = 1, within_line = 1, global = 0\<rparr>, cursor = 2, lastLineBegin = 0,
      sinks = ((), [match_event \<lparr>line_number = 1, within_line = 1, global = 0\<rparr> TOKEN_INTEGER 0 2])\<rparr> =
     Returns \<lparr>location = \<lparr>line_number = 1, within_line = 3, global = 2\<rparr>, cursor = 2, lastLineBegin = 0,
      sinks = ((), [match_event \<lparr>line_number = 1, within_line = 1, global = 0\<rparr> TOKEN_INTEGER 0 2,
                    no_match_event \<lparr>line_number = 1, within_line = 3, global = 2\<rparr>])\<rparr>"
  using no_match_iteration[of
      "\<lparr>location = \<lparr>line_number = 1, within_line = 1, global = 0\<rparr>, cursor = 2, lastLineBegin = 0,
        sinks = ((), [match_event \<lparr>line_number = 1, within_line = 1, global = 0\<rparr> TOKEN_INTEGER 0 2])\<rparr>"
      "''12$''" integer_newline_lexer ignore_onMatch ErrorHandler]
    no_match_iteration[of
      "\<lparr>location = \<lparr>line_number = 1, within_line = 1, global = 0\<rparr>, cursor = 2, lastLineBegin = 0,
        sinks = ((), [match_event \<lparr>line_number = 1, within_line = 1, global = 0\<rparr> TOKEN_INTEGER 0 2])\<rparr>"
      "''12$''" integer_newline_lexer ignore_onMatch
      "ignore_onError :: Location \<Rightarrow> unit \<Rightarrow> (SyntaxErrorException, unit, unit) outcome"]
  by (simp add: run_simps less_Suc_eq_0_disj numeral_2_eq_2)

subsection \<open>No rule matches at the start of the script\<close>

text \<open>
  C2, amended. On a script at whose first character no rule can match, such as \<open>$\<close>, the
  first iteration delivers a no-match event at line 1, column 1. If the error sink throws
  on it, as \<open>ErrorHandler\<close> of Example.cpp does, that is the only event delivered and
  \<open>analyze\<close> ends with the sink's exception. If the error sink always returns, \<open>analyze\<close>
  does not end: the cursor stays where it is and the same iteration repeats. Whatever the
  error sink does, the log after the first iteration is that one event; and with an error
  sink that always returns, after any number \<open>n\<close> of iterations the cursor is still at 0,
  the location is still line 1, column 1, and the log is \<open>n\<close> copies of that event.
\<close>

theorem no_match_at_start:
  fixes this :: "'id Lexer" and s :: 's
    and onError :: "Location \<Rightarrow> 's \<Rightarrow> ('x, 's, 's) outcome"
  assumes "script \<noteq> []"
    and "\<forall>i < length (m_expressions this). \<not> can_match this script 0 i"
  shows "(onError \<lparr>line_number = 1, within_line = 1, global = 0\<rparr> s = Throws x s' \<longrightarrow>
            analyze this script (logged_onMatch onMatch) (logged_onError onError) (s, []) =
              Some (Throws x (s', [no_match_event \<lparr>line_number = 1, within_line = 1, global = 0\<rparr>]),
                    this)) \<and>
         ((\<forall>loc s. returned (onError loc s)) \<longrightarrow>
            analyze this script (logged_onMatch onMatch) (logged_onError onError) (s, []) = None) \<and>
         snd (after_body (analyze_body this script (logged_onMatch onMatch) (logged_onError onError)
                \<lparr>location = \<lparr>line_number = 1, within_line = 1, global = 0\<rparr>,
                 cursor = 0, lastLineBegin = 0, sinks = (s, [])\<rparr>)) =
           [no_match_event \<lparr>line_number = 1, within_line = 1, global = 0\<rparr>] \<and>
         ((\<forall>loc s. returned (onError loc s)) \<longrightarrow>
            (\<forall>n. \<exists>s'.
               analyze_iterations n this script (logged_onMatch onMatch) (logged_onError onError)
                 \<lparr>location = \<lparr>line_number = 1, within_line = 1, global = 0\<rparr>,
                  cursor = 0, lastLineBegin = 0, sinks = (s, [])\<rparr> =
               Returns \<lparr>location = \<lparr>line_number = 1, within_line = 1, global = 0\<rparr>,
                        cursor = 0, lastLineBegin = 0,
                        sinks = (s', replicate n
                                   (no_match_event \<lparr>line_number = 1, within_line = 1, global = 0\<rparr>))\<rparr>))"
proof (intro conjI impI allI)
  let ?st = "\<lparr>location = \<lparr>line_number = 1, within_line = 1, global = 0\<rparr>,
              cursor = 0, lastLineBegin = 0, sinks = (s, [])\<rparr>
              :: ('s \<times> 'id event list) scan"
  have c: "cursor ?st < length script" using assms(1) by simp
  have nm: "\<forall>i < length (m_expressions this). \<not> can_match this script (cursor ?st) i"
    using assms(2) by simp
  have body: "analyze_body this script (logged_onMatch onMatch) (logged_onError onError) ?st =
      (case onError \<lparr>line_number = 1, within_line = 1, global = 0\<rparr> s of
         Throws x s' \<Rightarrow> Throws x (s', [no_match_event \<lparr>line_number = 1, within_line = 1, global = 0\<rparr>])
       | Returns s' \<Rightarrow> Returns (?st\<lparr>sinks := (s', [no_match_event \<lparr>line_number = 1, within_line = 1, global = 0\<rparr>])\<rparr>))"
    unfolding analyze_body_logged_no_match[OF c nm]
    by (cases "onError \<lparr>line_number = 1, within_line = 1, global = 0\<rparr> s") (simp_all add: Let_def)
  {
    assume thr: "onError \<lparr>line_number = 1, within_line = 1, global = 0\<rparr> s = Throws x s'"
    have b2: "analyze_body this script (logged_onMatch onMatch) (logged_onError onError) ?st =
        Throws x (s', [no_match_event \<lparr>line_number = 1, within_line = 1, global = 0\<rparr>])"
      unfolding body thr by simp
    have "analyze_while this script (logged_onMatch onMatch) (logged_onError onError) ?st =
        Some (Throws x (s', [no_match_event \<lparr>line_number = 1, within_line = 1, global = 0\<rparr>]))"
      using c by (subst analyze_while.simps, unfold b2) simp
    then show "analyze this script (logged_onMatch onMatch) (logged_onError onError) (s, []) =
              Some (Throws x (s', [no_match_event \<lparr>line_number = 1, within_line = 1, global = 0\<rparr>]),
                    this)"
      unfolding analyze_def by simp
  }
  {
    assume "\<forall>loc s. returned (onError loc s)"
    then have "\<forall>loc sl. returned (logged_onError onError loc sl :: ('x, 's \<times> 'id event list, 's \<times> 'id event list) outcome)"
      by (simp add: logged_onError_def returned_logged)
    from analyze_while_stuck[OF c nm this]
    show "analyze this script (logged_onMatch onMatch) (logged_onError onError) (s, []) = None"
      by (simp add: analyze_def)
  }
  show "snd (after_body (analyze_body this script (logged_onMatch onMatch) (logged_onError onError) ?st)) =
           [no_match_event \<lparr>line_number = 1, within_line = 1, global = 0\<rparr>]"
    unfolding body
    by (cases "onError \<lparr>line_number = 1, within_line = 1, global = 0\<rparr> s") simp_all
  {
    fix n
    assume ret: "\<forall>loc s. returned (onError loc s)"
    have c0: "0 < length script" using assms(1) by simp
    from analyze_iterations_stuck[OF c0 assms(2) ret, of n onMatch
        "\<lparr>line_number = 1, within_line = 1, global = 0\<rparr>" 0 s "[]"]
    show "\<exists>s'. analyze_iterations n this script (logged_onMatch onMatch) (logged_onError onError) ?st =
               Returns \<lparr>location = \<lparr>line_number = 1, within_line = 1, global = 0\<rparr>,
                        cursor = 0, lastLineBegin = 0,
                        sinks = (s', replicate n
                                   (no_match_event \<lparr>line_number = 1, within_line = 1, global = 0\<rparr>))\<rparr>"
      by (cases "n = 0") simp_all
  }
qed

text \<open>
  The script \<open>$\<close> with the table \<open>INTEGER\<close>, \<open>NEWLINE\<close>, for each of the two error sinks,
  and the first three iterations with the sink that returns.
\<close>

theorem no_match_at_start_witness:
  "analyze integer_newline_lexer ''$'' (logged_onMatch ignore_onMatch) (logged_onError ErrorHandler) ((), []) =
     Some (Throws (SyntaxErrorException \<lparr>line_number = 1, within_line = 1, global = 0\<rparr>)
             ((), [no_match_event \<lparr>line_number = 1, within_line = 1, global = 0\<rparr>]),
           integer_newline_lexer) \<and>
   analyze integer_newline_lexer ''$'' (logged_onMatch ignore_onMatch)
     (logged_onError (ignore_onError :: Location \<Rightarrow> unit \<Rightarrow> (SyntaxErrorException, unit, unit) outcome))
     ((), []) = None \<and>
   analyze_iterations 3 integer_newline_lexer ''$'' (logged_onMatch ignore_onMatch)
     (logged_onError (ignore_onError :: Location \<Rightarrow> unit \<Rightarrow> (SyntaxErrorException, unit, unit) outcome))
     \<lparr>location = \<lparr>line_number = 1, within_line = 1, global = 0\<rparr>,
      cursor = 0, lastLineBegin = 0, sinks = ((), [])\<rparr> =
     Returns \<lparr>location = \<lparr>line_number = 1, within_line = 1, global = 0\<rparr>,
              cursor = 0, lastLineBegin = 0,
              sinks = ((), [no_match_event \<lparr>line_number = 1, within_line = 1, global = 0\<rparr>,
                            no_match_event \<lparr>line_number = 1, within_line = 1, global = 0\<rparr>,
                            no_match_event \<lparr>line_number = 1, within_line = 1, global = 0\<rparr>])\<rparr>"
proof -
  have nm: "\<forall>i < length (m_expressions integer_newline_lexer).
              \<not> can_match integer_newline_lexer ''$'' 0 i"
    by (simp add: run_simps less_Suc_eq_0_disj numeral_2_eq_2)
  have ne: "''$'' \<noteq> []" by simp
  have ret: "\<forall>loc s. returned
      ((ignore_onError :: Location \<Rightarrow> unit \<Rightarrow> (SyntaxErrorException, unit, unit) outcome) loc s)"
    by (simp add: ignore_onError_def)
  note throwing = no_match_at_start[OF ne nm, where onError = ErrorHandler and s = "()" and s' = "()"
          and x = "SyntaxErrorException \<lparr>line_number = 1, within_line = 1, global = 0\<rparr>"
          and onMatch = ignore_onMatch]
  note returning = no_match_at_start[OF ne nm, where
          onError = "ignore_onError :: Location \<Rightarrow> unit \<Rightarrow> (SyntaxErrorException, unit, unit) outcome"
          and s = "()" and onMatch = ignore_onMatch]
  from throwing have a: "analyze integer_newline_lexer ''$'' (logged_onMatch ignore_onMatch)
      (logged_onError ErrorHandler) ((), []) =
     Some (Throws (SyntaxErrorException \<lparr>line_number = 1, within_line = 1, global = 0\<rparr>)
             ((), [no_match_event \<lparr>line_number = 1, within_line = 1, global = 0\<rparr>]),
           integer_newline_lexer)"
    by (simp add: ErrorHandler_def)
  from returning ret have b: "analyze integer_newline_lexer ''$'' (logged_onMatch ignore_onMatch)
     (logged_onError (ignore_onError :: Location \<Rightarrow> unit \<Rightarrow> (SyntaxErrorException, unit, unit) outcome))
     ((), []) = None"
    by blast
  from returning ret have "\<exists>s'. analyze_iterations 3 integer_newline_lexer ''$'' (logged_onMatch ignore_onMatch)
     (logged_onError (ignore_onError :: Location \<Rightarrow> unit \<Rightarrow> (SyntaxErrorException, unit, unit) outcome))
     \<lparr>location = \<lparr>line_number = 1, within_line = 1, global = 0\<rparr>,
      cursor = 0, lastLineBegin = 0, sinks = ((), [])\<rparr> =
     Returns \<lparr>location = \<lparr>line_number = 1, within_line = 1, global = 0\<rparr>,
              cursor = 0, lastLineBegin = 0,
              sinks = (s', replicate 3
                 (no_match_event \<lparr>line_number = 1, within_line = 1, global = 0\<rparr>))\<rparr>"
    by blast
  then have c: "analyze_iterations 3 integer_newline_lexer ''$'' (logged_onMatch ignore_onMatch)
     (logged_onError (ignore_onError :: Location \<Rightarrow> unit \<Rightarrow> (SyntaxErrorException, unit, unit) outcome))
     \<lparr>location = \<lparr>line_number = 1, within_line = 1, global = 0\<rparr>,
      cursor = 0, lastLineBegin = 0, sinks = ((), [])\<rparr> =
     Returns \<lparr>location = \<lparr>line_number = 1, within_line = 1, global = 0\<rparr>,
              cursor = 0, lastLineBegin = 0,
              sinks = ((), [no_match_event \<lparr>line_number = 1, within_line = 1, global = 0\<rparr>,
                            no_match_event \<lparr>line_number = 1, within_line = 1, global = 0\<rparr>,
                            no_match_event \<lparr>line_number = 1, within_line = 1, global = 0\<rparr>])\<rparr>"
    by (simp add: numeral_3_eq_3)
  from a b c show ?thesis by blast
qed

text \<open>
  C2 as stated fails: with an error sink that returns, \<open>analyze\<close> on the script \<open>$\<close> does
  not return, and the no-match event at line 1, column 1 is not the only one: the second
  iteration begins where the first began and delivers it again.
\<close>

theorem stuck_cursor_counterexample:
  "analyze integer_newline_lexer ''$'' (logged_onMatch ignore_onMatch)
     (logged_onError (ignore_onError :: Location \<Rightarrow> unit \<Rightarrow> (SyntaxErrorException, unit, unit) outcome))
     ((), []) = None \<and>
   analyze_body integer_newline_lexer ''$'' (logged_onMatch ignore_onMatch)
     (logged_onError (ignore_onError :: Location \<Rightarrow> unit \<Rightarrow> (SyntaxErrorException, unit, unit) outcome))
     \<lparr>location = \<lparr>line_number = 1, within_line = 1, global = 0\<rparr>, cursor = 0, lastLineBegin = 0,
      sinks = ((), [])\<rparr> =
     Returns \<lparr>location = \<lparr>line_number = 1, within_line = 1, global = 0\<rparr>, cursor = 0,
              lastLineBegin = 0,
              sinks = ((), [no_match_event \<lparr>line_number = 1, within_line = 1, global = 0\<rparr>])\<rparr> \<and>
   analyze_body integer_newline_lexer ''$'' (logged_onMatch ignore_onMatch)
     (logged_onError (ignore_onError :: Location \<Rightarrow> unit \<Rightarrow> (SyntaxErrorException, unit, unit) outcome))
     \<lparr>location = \<lparr>line_number = 1, within_line = 1, global = 0\<rparr>, cursor = 0, lastLineBegin = 0,
      sinks = ((), [no_match_event \<lparr>line_number = 1, within_line = 1, global = 0\<rparr>])\<rparr> =
     Returns \<lparr>location = \<lparr>line_number = 1, within_line = 1, global = 0\<rparr>, cursor = 0,
              lastLineBegin = 0,
              sinks = ((), [no_match_event \<lparr>line_number = 1, within_line = 1, global = 0\<rparr>,
                            no_match_event \<lparr>line_number = 1, within_line = 1, global = 0\<rparr>])\<rparr>"
proof (intro conjI)
  let ?onError = "logged_onError
      (ignore_onError :: Location \<Rightarrow> unit \<Rightarrow> (SyntaxErrorException, unit, unit) outcome)
      :: Location \<Rightarrow> unit \<times> TOKEN_ID event list \<Rightarrow> _"
  let ?st = "\<lparr>location = \<lparr>line_number = 1, within_line = 1, global = 0\<rparr>,
              cursor = 0, lastLineBegin = 0, sinks = ((), [])\<rparr> :: (unit \<times> TOKEN_ID event list) scan"
  have c: "cursor ?st < length ''$''" by simp
  have nm: "\<forall>i < length (m_expressions integer_newline_lexer).
              \<not> can_match integer_newline_lexer ''$'' (cursor ?st) i"
    by (simp add: run_simps less_Suc_eq_0_disj numeral_2_eq_2)
  have r: "\<forall>loc sl. returned (?onError loc sl)"
    by (simp add: logged_onError_def logged_def ignore_onError_def)
  from analyze_while_stuck[OF c nm r]
  show "analyze integer_newline_lexer ''$'' (logged_onMatch ignore_onMatch) ?onError ((), []) = None"
    by (simp add: analyze_def)
qed (simp_all add: run_simps CountLineNums_loop.simps)

subsection \<open>Pattern-compile errors\<close>

text \<open>
  C8. A pattern text that the engine's compiler rejects makes \<open>define\<close> throw the
  compiler's error at registration, and the lexer is left as it was: no definition is
  added to the table; a text that compiles is added at the end of the table. Scanning
  compiles nothing: an exception that leaves \<open>analyze\<close> is one that a sink has thrown,
  with the state the sink has left, so \<open>analyze\<close> raises no pattern-compile error.
\<close>

theorem compile_error_at_registration:
  "(compile definitionRegex = Inl e \<longrightarrow>
      Lexer_define compile id' definitionRegex this = Throws e this) \<and>
   (compile definitionRegex = Inr expr \<longrightarrow>
      Lexer_define compile id' definitionRegex this =
        Returns (this\<lparr>m_expressions := m_expressions this @ [\<lparr>Expr = expr, ID = id'\<rparr>]\<rparr>)) \<and>
   (analyze this script onMatch onError s = Some (Throws x s', this') \<longrightarrow>
      (\<exists>loc s0. onError loc s0 = Throws x s') \<or>
      (\<exists>loc tok a b s0. onMatch loc tok a b s0 = Throws x s'))"
proof (intro conjI impI)
  assume "analyze this script onMatch onError s = Some (Throws x s', this')"
  then have "analyze_while this script onMatch onError
               \<lparr>location = \<lparr>line_number = 1, within_line = 1, global = 0\<rparr>,
                cursor = 0, lastLineBegin = 0, sinks = s\<rparr> = Some (Throws x s')"
    by (auto simp: analyze_def)
  from analyze_while_Throws[OF this]
  show "(\<exists>loc s0. onError loc s0 = Throws x s') \<or>
        (\<exists>loc tok a b s0. onMatch loc tok a b s0 = Throws x s')"
    by simp
qed (simp_all add: Lexer_define_def TokenDef_ctor_def)

text \<open>
  With a compiler that rejects the text \<open>(\<close> and takes any other text as ordinary
  characters: \<open>define\<close> on \<open>(\<close> and on \<open>ab\<close>, and a scan of \<open>ab\<close> with the table \<open>A\<close>, \<open>AB\<close>
  that ends with the exception of the error sink.
\<close>

theorem compile_error_at_registration_witness:
  "Lexer_define (\<lambda>text. if text = ''('' then Inl error_paren else Inr (literal text))
     TOKEN_X ''('' a_ab_lexer = Throws error_paren a_ab_lexer \<and>
   Lexer_define (\<lambda>text. if text = ''('' then Inl error_paren else Inr (literal text))
     TOKEN_X ''ab'' a_ab_lexer =
     Returns (a_ab_lexer\<lparr>m_expressions :=
                m_expressions a_ab_lexer @ [\<lparr>Expr = literal ''ab'', ID = TOKEN_X\<rparr>]\<rparr>) \<and>
   analyze a_ab_lexer ''ab'' ignore_onMatch ErrorHandler () =
     Some (Throws (SyntaxErrorException \<lparr>line_number = 1, within_line = 2, global = 1\<rparr>) (),
           a_ab_lexer) \<and>
   ((\<exists>loc s0. ErrorHandler loc s0 =
        Throws (SyntaxErrorException \<lparr>line_number = 1, within_line = 2, global = 1\<rparr>) ()) \<or>
    (\<exists>loc tok a b s0. (ignore_onMatch :: Location \<Rightarrow> TOKEN_ID \<Rightarrow> _) loc tok a b s0 =
        Throws (SyntaxErrorException \<lparr>line_number = 1, within_line = 2, global = 1\<rparr>) ()))"
proof -
  have run: "analyze a_ab_lexer ''ab'' ignore_onMatch ErrorHandler () =
     Some (Throws (SyntaxErrorException \<lparr>line_number = 1, within_line = 2, global = 1\<rparr>) (),
           a_ab_lexer)"
    by (simp add: run_simps analyze_while.simps CountLineNums_loop.simps)
  show ?thesis
    using compile_error_at_registration[where
        compile = "\<lambda>text. if text = ''('' then Inl error_paren else Inr (literal text)"
        and definitionRegex = "''(''" and e = error_paren and id' = TOKEN_X and this = a_ab_lexer
        and this' = a_ab_lexer and script = "''ab''" and onMatch = ignore_onMatch
        and onError = ErrorHandler and s = "()" and s' = "()"
        and x = "SyntaxErrorException \<lparr>line_number = 1, within_line = 2, global = 1\<rparr>"]
      compile_error_at_registration[where
        compile = "\<lambda>text. if text = ''('' then Inl error_paren else Inr (literal text)"
        and definitionRegex = "''ab''" and expr = "literal ''ab''" and id' = TOKEN_X
        and this = a_ab_lexer and e = error_paren
        and this' = a_ab_lexer and script = "''ab''" and onMatch = ignore_onMatch
        and onError = ErrorHandler and s = "()" and s' = "()"
        and x = "SyntaxErrorException \<lparr>line_number = 1, within_line = 2, global = 1\<rparr>"]
      run
    by simp
qed

subsection \<open>Locations of a scan across a newline\<close>

text \<open>
  C7. The script of the five characters \<open>1\<close>, \<open>2\<close>, newline, \<open>3\<close>, \<open>4\<close>, scanned with the rule
  \<open>INTEGER = [0-9]+\<close> registered before the rule \<open>NEWLINE = \n\<close>: \<open>analyze\<close> returns, and
  whatever the error sink is, exactly three events have been delivered, all of them match
  events, in this order: \<open>INTEGER\<close> at line 1, column 1, \<open>NEWLINE\<close> at line 1, column 3, and
  \<open>INTEGER\<close> at line 2, column 1; their lexemes are \<open>12\<close>, the newline, and \<open>34\<close>.
\<close>

theorem location_arithmetic_example:
  "analyze integer_newline_lexer (''12'' @ [newline] @ ''34'')
     (logged_onMatch ignore_onMatch) (logged_onError onError) ((), []) =
   Some (Returns ((),
     [match_event \<lparr>line_number = 1, within_line = 1, global = 0\<rparr> TOKEN_INTEGER 0 2,
      match_event \<lparr>line_number = 1, within_line = 3, global = 2\<rparr> TOKEN_NEWLINE 2 3,
      match_event \<lparr>line_number = 2, within_line = 1, global = 3\<rparr> TOKEN_INTEGER 3 5]),
     integer_newline_lexer) \<and>
   map (lexeme (''12'' @ [newline] @ ''34''))
     [match_event \<lparr>line_number = 1, within_line = 1, global = 0\<rparr> TOKEN_INTEGER 0 2,
      match_event \<lparr>line_number = 1, within_line = 3, global = 2\<rparr> TOKEN_NEWLINE 2 3,
      match_event \<lparr>line_number = 2, within_line = 1, global = 3\<rparr> TOKEN_INTEGER 3 5] =
     [''12'', [newline], ''34'']"
  using run_integer_newline[of onError] by (simp add: subrange_def)

subsection \<open>No empty lexeme\<close>




subsection \<open>Locations\<close>

text \<open>
  C6. For every event that \<open>analyze\<close> delivers, match or no-match, in a call that ends
  or in the first iterations of one that does not, with \<open>c\<close> the cursor at the moment
  its match attempt began (the end of the lexeme of the last match event
  before it, or 0): \<open>global\<close> is \<open>c\<close>, the distance from the start of the script;
  \<open>line_number\<close> is 1 plus the number of newlines among the \<open>c\<close> characters consumed, and
  from one event to the next it grows by exactly the number of newlines in the lexeme
  consumed in between; \<open>within_line\<close> is 1 plus the distance of \<open>c\<close> from the character
  that follows the last consumed newline, or from the start of the script when no
  newline has been consumed. The first event is at line 1, column 1, offset 0.
\<close>

theorem event_locations:
  assumes "delivers this script onMatch onError s log" and "k < length log"
  shows "global (event_location (log ! k)) = cursor_after (take k log) \<and>
         line_number (event_location (log ! k)) =
           1 + newlines script (cursor_after (take k log)) \<and>
         within_line (event_location (log ! k)) =
           1 + (cursor_after (take k log)
                  - line_begin script (cursor_after (take k log))) \<and>
         (newline \<notin> set (take (cursor_after (take k log)) script) \<longrightarrow>
            within_line (event_location (log ! k)) =
              1 + cursor_after (take k log)) \<and>
         (\<forall>i. i < cursor_after (take k log) \<and> script ! i = newline \<and>
              newline \<notin> set (subrange script (Suc i) (cursor_after (take k log))) \<longrightarrow>
            within_line (event_location (log ! k)) =
              1 + (cursor_after (take k log) - Suc i)) \<and>
         (k = 0 \<longrightarrow> event_location (log ! k) =
            \<lparr>line_number = 1, within_line = 1, global = 0\<rparr>) \<and>
         (Suc k < length log \<longrightarrow>
            line_number (event_location (log ! Suc k)) =
              line_number (event_location (log ! k))
                + length (filter (\<lambda>x. x = newline) (lexeme script (log ! k))))"
proof -
  let ?log = log
  let ?c = "cursor_after (take k ?log)"
  from delivers_scan_log[OF assms(1)] have sl: "scan_log this script ?log" .
  from scan_log_nth[OF sl assms(2)] have c: "?c < length script" by simp
  from scan_log_event[OF sl assms(2)]
  have loc: "event_location (?log ! k) = location_at script ?c"
    and m: "\<forall>loc tok a b. ?log ! k = match_event loc tok a b \<longrightarrow> a = ?c \<and> a < b \<and> b \<le> length script"
    by simp_all
  have 1: "global (event_location (?log ! k)) = ?c"
    and 2: "line_number (event_location (?log ! k)) = 1 + newlines script ?c"
    and 3: "within_line (event_location (?log ! k)) = 1 + (?c - line_begin script ?c)"
    unfolding loc by (simp_all add: location_at_def)
  have 4: "newline \<notin> set (take ?c script) \<longrightarrow> within_line (event_location (?log ! k)) = 1 + ?c"
    using c by (simp add: 3 line_begin_none)
  have 5: "\<forall>i. i < ?c \<and> script ! i = newline \<and> newline \<notin> set (subrange script (Suc i) ?c) \<longrightarrow>
            within_line (event_location (?log ! k)) = 1 + (?c - Suc i)"
  proof (intro allI impI, elim conjE)
    fix i assume i: "i < ?c" "script ! i = newline" "newline \<notin> set (subrange script (Suc i) ?c)"
    from c have "?c \<le> length script" by simp
    from line_begin_last[OF i(1) this i(2) i(3)]
    show "within_line (event_location (?log ! k)) = 1 + (?c - Suc i)" by (simp add: 3)
  qed
  have 6: "k = 0 \<longrightarrow> event_location (?log ! k) = \<lparr>line_number = 1, within_line = 1, global = 0\<rparr>"
    unfolding loc
    by (simp add: location_at_def cursor_after_Nil newlines_def line_begin_def)
  have 7: "Suc k < length ?log \<longrightarrow>
            line_number (event_location (?log ! Suc k)) =
              line_number (event_location (?log ! k))
                + length (filter (\<lambda>x. x = newline) (lexeme script (?log ! k)))"
  proof
    assume k': "Suc k < length ?log"
    from scan_log_event[OF sl k']
    have "line_number (event_location (?log ! Suc k)) =
            1 + newlines script (cursor_after (take (Suc k) ?log))"
      by (simp add: location_at_def)
    also have "cursor_after (take (Suc k) ?log) = advance ?c (?log ! k)"
      by (rule cursor_after_take_Suc[OF assms(2)])
    also have "1 + newlines script (advance ?c (?log ! k)) =
        1 + newlines script ?c + length (filter (\<lambda>x. x = newline) (lexeme script (?log ! k)))"
    proof (cases "?log ! k")
      case (match_event loc tok a b)
      with m have "a = ?c" "a \<le> b" by simp_all
      with match_event newlines_split[of a b script] show ?thesis by simp
    next
      case (no_match_event loc)
      then show ?thesis by simp
    qed
    finally show "line_number (event_location (?log ! Suc k)) =
              line_number (event_location (?log ! k))
                + length (filter (\<lambda>x. x = newline) (lexeme script (?log ! k)))"
      using 2 by simp
  qed
  from 1 2 3 4 5 6 7 show ?thesis by blast
qed

text \<open>The third event of the scan of \<open>12\n34\<close>: one newline consumed, the cursor at 3.\<close>

theorem event_locations_witness:
  "delivers integer_newline_lexer (''12'' @ [newline] @ ''34'') ignore_onMatch ErrorHandler ()
     [match_event \<lparr>line_number = 1, within_line = 1, global = 0\<rparr> TOKEN_INTEGER 0 2,
      match_event \<lparr>line_number = 1, within_line = 3, global = 2\<rparr> TOKEN_NEWLINE 2 3,
      match_event \<lparr>line_number = 2, within_line = 1, global = 3\<rparr> TOKEN_INTEGER 3 5] \<and>
   analyze integer_newline_lexer (''12'' @ [newline] @ ''34'')
     (logged_onMatch ignore_onMatch) (logged_onError ErrorHandler) ((), []) =
   Some (Returns ((),
     [match_event \<lparr>line_number = 1, within_line = 1, global = 0\<rparr> TOKEN_INTEGER 0 2,
      match_event \<lparr>line_number = 1, within_line = 3, global = 2\<rparr> TOKEN_NEWLINE 2 3,
      match_event \<lparr>line_number = 2, within_line = 1, global = 3\<rparr> TOKEN_INTEGER 3 5]),
     integer_newline_lexer) \<and>
   cursor_after (take 2
     [match_event \<lparr>line_number = 1, within_line = 1, global = 0\<rparr> TOKEN_INTEGER 0 2,
      match_event \<lparr>line_number = 1, within_line = 3, global = 2\<rparr> TOKEN_NEWLINE 2 3,
      match_event \<lparr>line_number = 2, within_line = 1, global = 3\<rparr> TOKEN_INTEGER 3 5]) = 3 \<and>
   newlines (''12'' @ [newline] @ ''34'') 3 = 1 \<and>
   line_begin (''12'' @ [newline] @ ''34'') 3 = 3 \<and>
   (''12'' @ [newline] @ ''34'') ! 2 = newline \<and>
   event_location
     ([match_event \<lparr>line_number = 1, within_line = 1, global = 0\<rparr> TOKEN_INTEGER 0 2,
       match_event \<lparr>line_number = 1, within_line = 3, global = 2\<rparr> TOKEN_NEWLINE 2 3,
       match_event \<lparr>line_number = 2, within_line = 1, global = 3\<rparr> TOKEN_INTEGER 3 5] ! 2) =
     \<lparr>line_number = 1 + 1, within_line = 1 + (3 - 3), global = 3\<rparr>"
  using run_integer_newline[of ErrorHandler]
    delivers_finished[OF run_integer_newline[of ErrorHandler]]
    event_locations[OF delivers_finished[OF run_integer_newline[of ErrorHandler]], of 2]
  by (simp add: cursor_after_def newlines_def line_begin_def newline_def)

subsection \<open>The lexemes cover the script\<close>

text \<open>
  C3, amended. If the script is a concatenation of back-to-back substrings each of which
  is the match that the first rule matching at its position, in table order, finds there,
  and the match sink returns, then \<open>analyze\<close> returns, the lexemes delivered are these
  substrings in order, every event is a match event, and the lexemes concatenated in the
  order of delivery are the script: no gap, no overlap, no no-match event. And in every
  call of \<open>analyze\<close>, at every moment, the lexemes delivered so far, concatenated, are the
  script up to the cursor; if the call returns, every event is a match event, each lexeme
  begins where the one before it ended, the first at the start of the script, and
  together they are the whole script.
\<close>

theorem lexemes_reconstruct_script:
  fixes this :: "'id Lexer" and s :: 's
    and onMatch :: "Location \<Rightarrow> 'id \<Rightarrow> nat \<Rightarrow> nat \<Rightarrow> 's \<Rightarrow> ('x, 's, 's) outcome"
  shows
  "(first_match_segments this script 0 ws \<and> (\<forall>loc tok a b s. returned (onMatch loc tok a b s)) \<longrightarrow>
      (\<exists>sl. analyze this script (logged_onMatch onMatch) (logged_onError onError) (s, [])
              = Some (Returns sl, this) \<and>
            map (lexeme script) (snd sl) = ws \<and> list_all is_match (snd sl) \<and>
            concat (map (lexeme script) (snd sl)) = script)) \<and>
   (delivers this script onMatch onError s log \<longrightarrow>
      concat (map (lexeme script) log) = take (cursor_after log) script) \<and>
   (analyze this script (logged_onMatch onMatch) (logged_onError onError) (s, []) = Some (r, this') \<longrightarrow>
      (returned r \<longrightarrow>
         list_all is_match (snd (final r)) \<and>
         concat (map (lexeme script) (snd (final r))) = script \<and>
         (\<forall>k < length (snd (final r)). \<exists>loc tok b.
            snd (final r) ! k = match_event loc tok (cursor_after (take k (snd (final r)))) b \<and>
            cursor_after (take k (snd (final r))) < b)))"
proof (intro conjI impI)
  assume run: "analyze this script (logged_onMatch onMatch) (logged_onError onError) (s, []) = Some (r, this')"
  let ?log = "snd (final r)"
  from analyze_log[OF run] have sl: "scan_log this script ?log"
    and end': "returned r \<longrightarrow> cursor_after ?log = length script" by simp_all
  from scan_log_lexemes[OF sl]
  have lx: "concat (map (lexeme script) ?log) = take (cursor_after ?log) script" by simp
  assume "returned r"
  with end' have c: "cursor_after ?log = length script" by simp
  from scan_log_all_matches[OF sl c] show am: "list_all is_match ?log" .
  from lx c show "concat (map (lexeme script) ?log) = script" by simp
  show "\<forall>k < length ?log. \<exists>loc tok b.
            ?log ! k = match_event loc tok (cursor_after (take k ?log)) b \<and>
            cursor_after (take k ?log) < b"
  proof (intro allI impI)
    fix k assume k: "k < length ?log"
    with am have "is_match (?log ! k)" by (simp add: list_all_length)
    then obtain loc tok a b where e: "?log ! k = match_event loc tok a b"
      by (cases "?log ! k") simp_all
    from scan_log_event[OF sl k] e have "a = cursor_after (take k ?log)" "a < b" by simp_all
    with e show "\<exists>loc tok b. ?log ! k = match_event loc tok (cursor_after (take k ?log)) b \<and>
            cursor_after (take k ?log) < b" by blast
  qed
next
  assume "delivers this script onMatch onError s log"
  from scan_log_lexemes[OF delivers_scan_log[OF this]]
  show "concat (map (lexeme script) log) = take (cursor_after log) script" by simp
next
  assume a: "first_match_segments this script 0 ws \<and> (\<forall>loc tok a b s. returned (onMatch loc tok a b s))"
  let ?st = "\<lparr>location = \<lparr>line_number = 1, within_line = 1, global = 0\<rparr>,
              cursor = 0, lastLineBegin = 0, sinks = (s, [])\<rparr> :: ('s \<times> 'id event list) scan"
  from a have seg: "first_match_segments this script (cursor ?st) ws"
    and ret: "\<forall>loc tok a b s. returned (onMatch loc tok a b s)" by simp_all
  from analyze_while_segments[OF ret scan_inv_initial seg, of onError]
  obtain sl where w: "analyze_while this script (logged_onMatch onMatch) (logged_onError onError) ?st
        = Some (Returns sl)"
    and lx: "map (lexeme script) (snd sl) = ws" by auto
  from w have run: "analyze this script (logged_onMatch onMatch) (logged_onError onError) (s, [])
      = Some (Returns sl, this)"
    by (simp add: analyze_def)
  from analyze_log[OF run] have sl: "scan_log this script (snd sl)"
    and c: "cursor_after (snd sl) = length script" by simp_all
  from scan_log_lexemes[OF sl] c have "concat (map (lexeme script) (snd sl)) = script" by simp
  with run lx scan_log_all_matches[OF sl c]
  show "\<exists>sl. analyze this script (logged_onMatch onMatch) (logged_onError onError) (s, [])
              = Some (Returns sl, this) \<and>
            map (lexeme script) (snd sl) = ws \<and> list_all is_match (snd sl) \<and>
            concat (map (lexeme script) (snd sl)) = script"
    by blast
qed

text \<open>The script \<open>12\n34\<close> with the table \<open>INTEGER\<close>, \<open>NEWLINE\<close> and the segments \<open>12\<close>, \<open>\n\<close>, \<open>34\<close>.\<close>

theorem lexemes_reconstruct_script_witness:
  "first_match_segments integer_newline_lexer (''12'' @ [newline] @ ''34'') 0 [''12'', [newline], ''34''] \<and>
   delivers integer_newline_lexer (''12'' @ [newline] @ ''34'') ignore_onMatch ErrorHandler ()
     [match_event \<lparr>line_number = 1, within_line = 1, global = 0\<rparr> TOKEN_INTEGER 0 2,
      match_event \<lparr>line_number = 1, within_line = 3, global = 2\<rparr> TOKEN_NEWLINE 2 3,
      match_event \<lparr>line_number = 2, within_line = 1, global = 3\<rparr> TOKEN_INTEGER 3 5] \<and>
   analyze integer_newline_lexer (''12'' @ [newline] @ ''34'')
     (logged_onMatch ignore_onMatch) (logged_onError ErrorHandler) ((), []) =
   Some (Returns ((),
     [match_event \<lparr>line_number = 1, within_line = 1, global = 0\<rparr> TOKEN_INTEGER 0 2,
      match_event \<lparr>line_number = 1, within_line = 3, global = 2\<rparr> TOKEN_NEWLINE 2 3,
      match_event \<lparr>line_number = 2, within_line = 1, global = 3\<rparr> TOKEN_INTEGER 3 5]),
     integer_newline_lexer) \<and>
   concat (map (lexeme (''12'' @ [newline] @ ''34''))
     [match_event \<lparr>line_number = 1, within_line = 1, global = 0\<rparr> TOKEN_INTEGER 0 2,
      match_event \<lparr>line_number = 1, within_line = 3, global = 2\<rparr> TOKEN_NEWLINE 2 3,
      match_event \<lparr>line_number = 2, within_line = 1, global = 3\<rparr> TOKEN_INTEGER 3 5]) =
     ''12'' @ [newline] @ ''34''"
proof -
  have seg: "first_match_segments integer_newline_lexer (''12'' @ [newline] @ ''34'') 0
      [''12'', [newline], ''34'']"
    by code_simp
  note run = run_integer_newline[of ErrorHandler]
  note claim = lexemes_reconstruct_script[where this = integer_newline_lexer
      and script = "''12'' @ [newline] @ ''34''" and ws = "[''12'', [newline], ''34'']"
      and onMatch = "ignore_onMatch :: Location \<Rightarrow> TOKEN_ID \<Rightarrow> nat \<Rightarrow> nat \<Rightarrow> unit
                       \<Rightarrow> (SyntaxErrorException, unit, unit) outcome"
      and onError = ErrorHandler and s = "()"
      and r = "Returns ((),
     [match_event \<lparr>line_number = 1, within_line = 1, global = 0\<rparr> TOKEN_INTEGER 0 2,
      match_event \<lparr>line_number = 1, within_line = 3, global = 2\<rparr> TOKEN_NEWLINE 2 3,
      match_event \<lparr>line_number = 2, within_line = 1, global = 3\<rparr> TOKEN_INTEGER 3 5])"
      and this' = integer_newline_lexer]
  have ret: "\<forall>loc tok a b s. returned
      ((ignore_onMatch :: Location \<Rightarrow> TOKEN_ID \<Rightarrow> nat \<Rightarrow> nat \<Rightarrow> unit
          \<Rightarrow> (SyntaxErrorException, unit, unit) outcome) loc tok a b s)"
    by (simp add: ignore_onMatch_def)
  from conjunct1[OF claim, THEN mp, OF conjI[OF seg ret]]
  obtain sl where "analyze integer_newline_lexer (''12'' @ [newline] @ ''34'')
       (logged_onMatch ignore_onMatch) (logged_onError ErrorHandler) ((), [])
          = Some (Returns sl, integer_newline_lexer)"
    and "concat (map (lexeme (''12'' @ [newline] @ ''34'')) (snd sl)) = ''12'' @ [newline] @ ''34''"
    by blast
  with run have lx: "concat (map (lexeme (''12'' @ [newline] @ ''34''))
     [match_event \<lparr>line_number = 1, within_line = 1, global = 0\<rparr> TOKEN_INTEGER 0 2,
      match_event \<lparr>line_number = 1, within_line = 3, global = 2\<rparr> TOKEN_NEWLINE 2 3,
      match_event \<lparr>line_number = 2, within_line = 1, global = 3\<rparr> TOKEN_INTEGER 3 5]) =
     ''12'' @ [newline] @ ''34''"
    by auto
  from delivers_finished[OF run]
  have d: "delivers integer_newline_lexer (''12'' @ [newline] @ ''34'') ignore_onMatch ErrorHandler ()
     [match_event \<lparr>line_number = 1, within_line = 1, global = 0\<rparr> TOKEN_INTEGER 0 2,
      match_event \<lparr>line_number = 1, within_line = 3, global = 2\<rparr> TOKEN_NEWLINE 2 3,
      match_event \<lparr>line_number = 2, within_line = 1, global = 3\<rparr> TOKEN_INTEGER 3 5]"
    by simp
  from seg run lx d show ?thesis by blast
qed

text \<open>
  C3 as stated fails where an earlier rule shadows the rule that matches a substring. With
  the table \<open>A = a\<close>, \<open>AB = ab\<close> the script \<open>ab\<close> is one substring that matches the rule
  \<open>AB\<close>; the scanner takes \<open>a\<close> for \<open>A\<close>, then no rule matches \<open>b\<close>: a no-match event at
  line 1, column 2 occurs, and the lexemes delivered make up \<open>a\<close>, not \<open>ab\<close>.
\<close>

theorem shadowed_rule_counterexample:
  "back_to_back a_ab_lexer ''ab'' [''ab''] \<and>
   analyze a_ab_lexer ''ab'' (logged_onMatch ignore_onMatch) (logged_onError ErrorHandler) ((), []) =
     Some (Throws (SyntaxErrorException \<lparr>line_number = 1, within_line = 2, global = 1\<rparr>)
            ((), [match_event \<lparr>line_number = 1, within_line = 1, global = 0\<rparr> TOKEN_A 0 1,
                  no_match_event \<lparr>line_number = 1, within_line = 2, global = 1\<rparr>]),
           a_ab_lexer) \<and>
   concat (map (lexeme ''ab'')
     [match_event \<lparr>line_number = 1, within_line = 1, global = 0\<rparr> TOKEN_A 0 1,
      no_match_event \<lparr>line_number = 1, within_line = 2, global = 1\<rparr>]) = ''a''"
  using run_a_ab
  by (simp add: back_to_back_def a_ab_lexer_def regex_search_def literal_def subrange_def)

subsection \<open>Determinism\<close>

text \<open>
  C10. Two calls of \<open>analyze\<close> with the same table and the same script deliver the same
  events, in the same order, with the same locations, token identifiers and lexeme
  spans, whatever their sinks are and do: of two sequences that the two calls have
  delivered, at the end of a call or after any number of iterations, one is an initial
  segment of the other, and they are equal when they have the same length; when both
  calls return, all that they have delivered is equal. Only a sink that ends a call early
  by throwing makes its sequence the shorter one. The lexer, and so the rule table, is
  after each call what it was before.
\<close>

theorem analyze_deterministic:
  fixes this :: "'id Lexer"
  assumes "delivers this script onMatch1 onError1 s1 log1"
    and "delivers this script onMatch2 onError2 s2 log2"
  shows "(prefix log1 log2 \<or> prefix log2 log1) \<and>
         (length log1 = length log2 \<longrightarrow> log1 = log2) \<and>
         (\<forall>r1 this1 r2 this2.
            analyze this script (logged_onMatch onMatch1) (logged_onError onError1) (s1, [])
              = Some (r1, this1) \<and>
            analyze this script (logged_onMatch onMatch2) (logged_onError onError2) (s2, [])
              = Some (r2, this2) \<longrightarrow>
            this1 = this \<and> this2 = this \<and>
            (returned r1 \<and> returned r2 \<longrightarrow> snd (final r1) = snd (final r2)))"
proof (intro conjI allI impI)
  from delivers_scan_log[OF assms(1)] have l1: "scan_log this script log1" .
  from delivers_scan_log[OF assms(2)] have l2: "scan_log this script log2" .
  show "prefix log1 log2 \<or> prefix log2 log1"
    using scan_log_prefix[OF l1 l2] scan_log_prefix[OF l2 l1] by (meson nat_le_linear)
  show "log1 = log2" if "length log1 = length log2"
    using scan_log_determined[OF l1 l2, of "length log1"] that by auto
next
  fix r1 this1 r2 this2
  assume runs: "analyze this script (logged_onMatch onMatch1) (logged_onError onError1) (s1, [])
              = Some (r1, this1) \<and>
            analyze this script (logged_onMatch onMatch2) (logged_onError onError2) (s2, [])
              = Some (r2, this2)"
  from runs analyze_log[of this script onMatch1 onError1 s1 r1 this1]
  have t1: "this1 = this" and l1: "scan_log this script (snd (final r1))"
    and e1: "returned r1 \<longrightarrow> cursor_after (snd (final r1)) = length script" by simp_all
  from runs analyze_log[of this script onMatch2 onError2 s2 r2 this2]
  have t2: "this2 = this" and l2: "scan_log this script (snd (final r2))"
    and e2: "returned r2 \<longrightarrow> cursor_after (snd (final r2)) = length script" by simp_all
  show "this1 = this" by (rule t1)
  show "this2 = this" by (rule t2)
  show "snd (final r1) = snd (final r2)" if "returned r1 \<and> returned r2"
    using scan_log_complete_eq[OF l1 l2] e1 e2 that by blast
qed

text \<open>
  The scan of \<open>12\n34\<close> with two different error sinks gives the same result. On the
  script \<open>ab\<close> with the table \<open>A\<close>, \<open>AB\<close>, a match sink that throws at once has received
  the first event of what the sinks of a longer scan receive.
\<close>

theorem analyze_deterministic_witness:
  "analyze integer_newline_lexer (''12'' @ [newline] @ ''34'')
     (logged_onMatch ignore_onMatch) (logged_onError ErrorHandler) ((), []) =
   analyze integer_newline_lexer (''12'' @ [newline] @ ''34'')
     (logged_onMatch ignore_onMatch)
     (logged_onError (ignore_onError :: Location \<Rightarrow> unit \<Rightarrow> (SyntaxErrorException, unit, unit) outcome))
     ((), []) \<and>
   analyze a_ab_lexer ''ab''
     (logged_onMatch (\<lambda>loc tok a b s. Throws (SyntaxErrorException loc) s))
     (logged_onError ErrorHandler) ((), []) =
   Some (Throws (SyntaxErrorException \<lparr>line_number = 1, within_line = 1, global = 0\<rparr>)
          ((), [match_event \<lparr>line_number = 1, within_line = 1, global = 0\<rparr> TOKEN_A 0 1]),
         a_ab_lexer) \<and>
   analyze a_ab_lexer ''ab'' (logged_onMatch ignore_onMatch) (logged_onError ErrorHandler) ((), []) =
   Some (Throws (SyntaxErrorException \<lparr>line_number = 1, within_line = 2, global = 1\<rparr>)
          ((), [match_event \<lparr>line_number = 1, within_line = 1, global = 0\<rparr> TOKEN_A 0 1,
                no_match_event \<lparr>line_number = 1, within_line = 2, global = 1\<rparr>]),
         a_ab_lexer) \<and>
   prefix [match_event \<lparr>line_number = 1, within_line = 1, global = 0\<rparr> TOKEN_A 0 1]
          [match_event \<lparr>line_number = 1, within_line = 1, global = 0\<rparr> TOKEN_A 0 1,
           no_match_event \<lparr>line_number = 1, within_line = 2, global = 1\<rparr>]"
  using analyze_deterministic[OF delivers_finished[OF run_integer_newline[of ErrorHandler]]
      delivers_finished[OF run_integer_newline[of
        "ignore_onError :: Location \<Rightarrow> unit \<Rightarrow> (SyntaxErrorException, unit, unit) outcome"]]]
    analyze_deterministic[OF delivers_finished[OF run_a_ab_abort] delivers_finished[OF run_a_ab]]
    run_integer_newline[of ErrorHandler]
    run_integer_newline[of "ignore_onError :: Location \<Rightarrow> unit \<Rightarrow> (SyntaxErrorException, unit, unit) outcome"]
    run_a_ab_abort run_a_ab
  by simp

end
